theory Spec2Isabelle
  imports Complex_Main "HOL-Library.AList" "HOL-Library.Multiset"
begin

section \<open>The file registry server (server/server.js)\<close>

text \<open>
  The server keeps one module-level JavaScript object, \<open>fileMap\<close>, from generated
  identifiers to \<open>FileInfo\<close> records, writes it to \<open>fileMap.json\<close> after every
  mutation and reads it back when the process starts. Uploaded bytes live in the
  directory \<open>uploads\<close>. Four Express routes drive both.

  Conventions of the embedding.
  \<^item> A JavaScript string is a \<open>string\<close>: the list of the bytes of its UTF-8 encoding,
    an unpaired surrogate being written as the three bytes of its code unit (0xED, then
    a byte from 0xA0 to 0xBF, then a continuation byte). The characters the code
    inspects (dot, slash, quote, backslash, control characters, the unreserved URI
    characters) are single bytes, and no byte of a longer sequence equals one of them.
  \<^item> A JavaScript number is modelled where the code uses one, for a file size: a \<open>nat\<close>,
    printed with all its decimal digits. Rounding of IEEE doubles (sizes beyond
    \<open>2^53\<close>) and the exponent notation of very large numbers are not modelled.
  \<^item> The only I/O failure tracked is a failing \<open>fs.writeFileSync\<close> on the snapshot
    file, at both of its call sites; the environment decides it. Reading, streaming
    and unlinking a regular file succeed.
  \<^item> The directory \<open>uploads\<close> exists and holds regular files only; \<open>fileMap.json\<close> is
    a regular file or absent. What a stored name denotes once it is joined to
    \<open>uploads\<close> is worked out as \<open>path.join\<close> does; a path that leaves these two
    places is looked up in the environment.
  \<^item> The platform is Node on POSIX with Express and multer; their functions are
    modelled as far as the server calls them. A response is recorded as the handler
    issues it: the status it sets, the headers it passes to \<open>res.setHeader\<close>, and the
    body it hands to \<open>res.json\<close> or pipes. What Express adds or does on its own while
    sending is below the model.
\<close>

subsection \<open>Characters\<close>

abbreviation (input) dquote :: char where "dquote \<equiv> CHR 0x22"
abbreviation (input) backslash :: char where "backslash \<equiv> CHR 0x5C"
abbreviation (input) newline :: char where "newline \<equiv> CHR 0x0A"
abbreviation (input) slash :: char where "slash \<equiv> CHR ''/''"
abbreviation (input) dot :: char where "dot \<equiv> CHR ''.''"

definition is_digit :: "char \<Rightarrow> bool" where
  "is_digit c = (48 \<le> (of_char c :: nat) \<and> (of_char c :: nat) \<le> 57)"

definition digit_val :: "char \<Rightarrow> nat" where
  "digit_val c = of_char c - 48"

definition digits_val :: "string \<Rightarrow> nat" where
  "digits_val ds = foldl (\<lambda>a c. 10 * a + digit_val c) 0 ds"

text \<open>\<open>String(n)\<close> for a non-negative integer: its decimal digits.\<close>

fun show_nat :: "nat \<Rightarrow> string" where
  "show_nat n =
     (if n < 10 then [''0123456789'' ! n]
      else show_nat (n div 10) @ [''0123456789'' ! (n mod 10)])"

declare show_nat.simps [simp del]

subsection \<open>Node's \<open>path\<close> module (POSIX)\<close>

text \<open>
  \<open>path.extname\<close> and \<open>path.parse\<close> scan the path from its end: trailing slashes are
  skipped, the last segment runs back to the previous slash, and the extension starts
  at the segment's last dot, unless the segment has no dot, starts with its only dot,
  or is \<open>..\<close>.
\<close>

definition last_segment :: "string \<Rightarrow> string" where
  "last_segment p =
     rev (takeWhile (\<lambda>c. c \<noteq> slash) (dropWhile (\<lambda>c. c = slash) (rev p)))"

definition segment_ext :: "string \<Rightarrow> string" where
  "segment_ext seg =
     (let after = rev (takeWhile (\<lambda>c. c \<noteq> dot) (rev seg)) in
      if dot \<notin> set seg then []
      else if Suc (length after) = length seg then []
      else if seg = ''..'' then []
      else dot # after)"

definition path_extname :: "string \<Rightarrow> string" where
  "path_extname p = segment_ext (last_segment p)"

text \<open>
  \<open>path.parse(p).name\<close> is the last segment without its extension. \<open>parse\<close> does not
  scan the leading slash of an absolute path, so for a segment that directly follows
  the root its test for \<open>..\<close> compares against the wrong start index and fails:
  \<open>path.parse('/..').name\<close> is \<open>.\<close>.
\<close>

definition follows_root :: "string \<Rightarrow> bool" where
  "follows_root p =
     (case p of [] \<Rightarrow> False
      | c # r \<Rightarrow> c = slash \<and> slash \<notin> set (dropWhile (\<lambda>c. c = slash) (rev r)))"

definition path_parse_name :: "string \<Rightarrow> string" where
  "path_parse_name p =
     (let seg = last_segment p;
          ext = (if seg = ''..'' \<and> follows_root p then ''.'' else segment_ext seg)
      in take (length seg - length ext) seg)"

text \<open>
  \<open>path.join(uploadsDir, name)\<close> joins the two with a slash and normalises the result:
  empty segments and \<open>.\<close> are dropped, \<open>..\<close> removes the segment before it, and a
  trailing slash is kept. \<open>uploadsDir\<close> is absolute and normal, so the joined path is
  told by the number of levels it climbs above \<open>uploadsDir\<close> and the segments it then
  descends. An empty \<open>name\<close> is skipped by \<open>join\<close>, which gives \<open>uploadsDir\<close> itself.
\<close>

fun segments :: "string \<Rightarrow> string list" where
  "segments [] = [[]]"
| "segments (c # cs) =
     (if c = slash then [] # segments cs
      else (case segments cs of
              seg # rest \<Rightarrow> (c # seg) # rest
            | [] \<Rightarrow> [[c]]))"

fun normalize_segment :: "nat \<times> string list \<Rightarrow> string \<Rightarrow> nat \<times> string list" where
  "normalize_segment (up, down) seg =
     (if seg = [] \<or> seg = ''.'' then (up, down)
      else if seg = ''..'' then (if down = [] then (Suc up, []) else (up, butlast down))
      else (up, down @ [seg]))"

definition join_uploadsDir :: "string \<Rightarrow> nat \<times> string list" where
  "join_uploadsDir name = foldl normalize_segment (0, []) (segments name)"

definition trailing_slash :: "string \<Rightarrow> bool" where
  "trailing_slash name = (name \<noteq> [] \<and> last name = slash)"

subsection \<open>\<open>encodeURIComponent\<close>\<close>

text \<open>
  \<open>encodeURIComponent\<close> throws a \<open>URIError\<close> (\<open>None\<close>) on a string with an unpaired
  surrogate. Otherwise every byte of the UTF-8 encoding is written as a percent sign
  and two upper-case hexadecimal digits, except the unreserved characters, which stay.
\<close>

fun unpaired_surrogate :: "string \<Rightarrow> bool" where
  "unpaired_surrogate (a # b # cs) =
     (((of_char a :: nat) = 237 \<and> 160 \<le> (of_char b :: nat) \<and> (of_char b :: nat) \<le> 191)
      \<or> unpaired_surrogate (b # cs))"
| "unpaired_surrogate cs = False"

definition uri_unreserved :: string where
  "uri_unreserved =
     ''ABCDEFGHIJKLMNOPQRSTUVWXYZabcdefghijklmnopqrstuvwxyz0123456789-_.!~*()'' @ [CHR 0x27]"

definition percent_encode :: "char \<Rightarrow> string" where
  "percent_encode c =
     [CHR ''%'', ''0123456789ABCDEF'' ! ((of_char c :: nat) div 16),
      ''0123456789ABCDEF'' ! ((of_char c :: nat) mod 16)]"

definition percent_encoded :: "string \<Rightarrow> string" where
  "percent_encoded s =
     concat (map (\<lambda>c. if c \<in> set uri_unreserved then [c] else percent_encode c) s)"

definition encodeURIComponent :: "string \<Rightarrow> string option" where
  "encodeURIComponent s = (if unpaired_surrogate s then None else Some (percent_encoded s))"

subsection \<open>JavaScript objects used as tables\<close>

text \<open>
  \<open>fileMap\<close> is created by the literal \<open>{}\<close> or by \<open>JSON.parse\<close>, so it inherits from
  \<open>Object.prototype\<close>. Its own properties are kept in creation order. A read
  \<open>fileMap[uid]\<close> finds an own property first and an inherited member otherwise; every
  member of \<open>Object.prototype\<close> is truthy and has no property \<open>storedFilename\<close>.
\<close>

definition Object_prototype_names :: "string list" where
  "Object_prototype_names =
     [''constructor'', ''__defineGetter__'', ''__defineSetter__'', ''hasOwnProperty'',
      ''__lookupGetter__'', ''__lookupSetter__'', ''isPrototypeOf'',
      ''propertyIsEnumerable'', ''toString'', ''valueOf'', ''__proto__'',
      ''toLocaleString'']"

datatype 'a js_get = Undefined | Inherited | Own 'a

definition obj_get :: "(string \<times> 'a) list \<Rightarrow> string \<Rightarrow> 'a js_get" where
  "obj_get obj k =
     (case map_of obj k of
        Some v \<Rightarrow> Own v
      | None \<Rightarrow> if k \<in> set Object_prototype_names then Inherited else Undefined)"

text \<open>
  The assignment \<open>obj[k] = v\<close> replaces the value of an own property in place and
  appends a new one otherwise. For the name \<open>__proto__\<close>, when it is not an own
  property, the assignment runs the inherited setter and creates no property; the
  replaced prototype is not tracked (no route reaches that case, see
  \<open>upload_uid_is_uuid\<close> below).
\<close>

definition obj_set :: "(string \<times> 'a) list \<Rightarrow> string \<Rightarrow> 'a \<Rightarrow> (string \<times> 'a) list" where
  "obj_set obj k v =
     (if k = ''__proto__'' \<and> map_of obj k = None then obj else AList.update k v obj)"

definition obj_delete :: "(string \<times> 'a) list \<Rightarrow> string \<Rightarrow> (string \<times> 'a) list" where
  "obj_delete obj k = AList.delete k obj"

text \<open>
  Own properties are enumerated (by \<open>Object.values\<close> and \<open>JSON.stringify\<close>) with the
  array indices first, in ascending numeric order, then the other names in creation
  order. An array index is the canonical decimal form of an integer below \<open>2^32 - 1\<close>.
\<close>

definition is_array_index :: "string \<Rightarrow> bool" where
  "is_array_index k =
     (k \<noteq> [] \<and> list_all is_digit k \<and> (k = ''0'' \<or> hd k \<noteq> CHR ''0'')
      \<and> int (digits_val k) < 4294967295)"

definition own_property_order :: "(string \<times> 'a) list \<Rightarrow> (string \<times> 'a) list" where
  "own_property_order obj =
     sort_key (\<lambda>kv. digits_val (fst kv)) (filter (\<lambda>kv. is_array_index (fst kv)) obj)
     @ filter (\<lambda>kv. \<not> is_array_index (fst kv)) obj"

definition Object_values :: "(string \<times> 'a) list \<Rightarrow> 'a list" where
  "Object_values obj = map snd (own_property_order obj)"

subsection \<open>Records and the registry\<close>

text \<open>
  The record of one uploaded file, with the field names of the source (\<open>size\<close> is
  \<open>size_bytes\<close> here).
\<close>

record FileInfo =
  uid :: string
  originalFilename :: string
  storedFilename :: string
  size_bytes :: nat
  mimeType :: string
  uploadTime :: string

type_synonym registry = "(string \<times> FileInfo) list"

subsection \<open>\<open>JSON.stringify\<close>\<close>

text \<open>
  JSON values as \<open>JSON.parse\<close> builds them. Numbers are exact rationals. An object
  lists its members in creation order.
\<close>

datatype jsval =
  JNull | JBool bool | JNum rat | JStr string | JArr "jsval list" | JObj "(string \<times> jsval) list"

text \<open>
  \<open>QuoteJSONString\<close>: the two-character escapes, \<open>\u00XX\<close> for the other control
  characters, every other character as it is. (An unpaired surrogate, which
  \<open>JSON.stringify\<close> writes as its \<open>\uXXXX\<close> escape, is written here as its three
  bytes; the parser below reads both forms back to the same string.)
\<close>

definition json_escape :: "char \<Rightarrow> string" where
  "json_escape c =
     (if c = CHR 0x08 then [backslash, CHR ''b'']
      else if c = CHR 0x09 then [backslash, CHR ''t'']
      else if c = CHR 0x0A then [backslash, CHR ''n'']
      else if c = CHR 0x0C then [backslash, CHR ''f'']
      else if c = CHR 0x0D then [backslash, CHR ''r'']
      else if c = dquote then [backslash, dquote]
      else if c = backslash then [backslash, backslash]
      else if (of_char c :: nat) < 32 then
        [backslash, CHR ''u'', CHR ''0'', CHR ''0'',
         ''0123456789abcdef'' ! ((of_char c :: nat) div 16),
         ''0123456789abcdef'' ! ((of_char c :: nat) mod 16)]
      else [c])"

definition JSON_quote :: "string \<Rightarrow> string" where
  "JSON_quote s = dquote # concat (map json_escape s) @ [dquote]"

text \<open>
  \<open>JSON.stringify(fileMap, null, 2)\<close>: an object with members is written one member
  per line, each after the current indentation plus two spaces, as the quoted name, a
  colon, a space and the value; an object without members is \<open>{}\<close>.
\<close>

definition json_member :: "string \<Rightarrow> string \<Rightarrow> string \<Rightarrow> string" where
  "json_member indent k v = indent @ JSON_quote k @ '': '' @ v"

fun json_lines :: "string list \<Rightarrow> string" where
  "json_lines [] = []"
| "json_lines [m] = m"
| "json_lines (m # ms) = m @ CHR '','' # newline # json_lines ms"

definition json_object :: "string \<Rightarrow> string list \<Rightarrow> string" where
  "json_object indent members =
     (if members = [] then ''{}''
      else CHR ''{'' # newline # json_lines members @ newline # indent @ ''}'')"

definition stringify_FileInfo :: "FileInfo \<Rightarrow> string" where
  "stringify_FileInfo r =
     json_object ''  ''
       [json_member ''    '' ''uid'' (JSON_quote (uid r)),
        json_member ''    '' ''originalFilename'' (JSON_quote (originalFilename r)),
        json_member ''    '' ''storedFilename'' (JSON_quote (storedFilename r)),
        json_member ''    '' ''size'' (show_nat (size_bytes r)),
        json_member ''    '' ''mimeType'' (JSON_quote (mimeType r)),
        json_member ''    '' ''uploadTime'' (JSON_quote (uploadTime r))]"

definition JSON_stringify :: "registry \<Rightarrow> string" where
  "JSON_stringify obj =
     json_object []
       (map (\<lambda>kv. json_member ''  '' (fst kv) (stringify_FileInfo (snd kv)))
            (own_property_order obj))"

subsection \<open>\<open>JSON.parse\<close>\<close>

text \<open>
  A parser of the JSON grammar: white space, the three literals, numbers, strings
  with their escapes (a \<open>\uXXXX\<close> escape is stored as the UTF-8 bytes of its code
  point, a surrogate pair as those of the pair's code point, an unpaired surrogate as
  the three bytes of its code unit), arrays and objects. A repeated member name keeps
  its first position and its last value. \<open>None\<close> stands for the \<open>SyntaxError\<close> that
  \<open>JSON.parse\<close> throws. The text is the file's bytes: where Node's decoder replaces
  an invalid UTF-8 sequence inside a string literal by U+FFFD, the bytes are kept.

  \<open>parse_value\<close> takes fuel; every step that spends one unit has consumed a
  character, so the length of the text, plus one, is enough.
\<close>

definition is_ws :: "char \<Rightarrow> bool" where
  "is_ws c = (c = CHR '' '' \<or> c = CHR 0x09 \<or> c = CHR 0x0A \<or> c = CHR 0x0D)"

definition skip_ws :: "string \<Rightarrow> string" where
  "skip_ws cs = dropWhile is_ws cs"

definition hex_val :: "char \<Rightarrow> nat option" where
  "hex_val c =
     (let n = (of_char c :: nat) in
      if 48 \<le> n \<and> n \<le> 57 then Some (n - 48)
      else if 97 \<le> n \<and> n \<le> 102 then Some (n - 87)
      else if 65 \<le> n \<and> n \<le> 70 then Some (n - 55)
      else None)"

definition hex4 :: "char \<Rightarrow> char \<Rightarrow> char \<Rightarrow> char \<Rightarrow> nat option" where
  "hex4 a b c d =
     (case (hex_val a, hex_val b, hex_val c, hex_val d) of
        (Some x, Some y, Some z, Some w) \<Rightarrow> Some (((x * 16 + y) * 16 + z) * 16 + w)
      | _ \<Rightarrow> None)"

definition utf8_encode :: "nat \<Rightarrow> string" where
  "utf8_encode cp =
     (if cp < 128 then [char_of cp]
      else if cp < 2048 then [char_of (192 + cp div 64), char_of (128 + cp mod 64)]
      else if cp < 65536 then
        [char_of (224 + cp div 4096), char_of (128 + cp div 64 mod 64), char_of (128 + cp mod 64)]
      else
        [char_of (240 + cp div 262144), char_of (128 + cp div 4096 mod 64),
         char_of (128 + cp div 64 mod 64), char_of (128 + cp mod 64)])"

definition unescape :: "char \<Rightarrow> char option" where
  "unescape e =
     (if e = dquote \<or> e = backslash \<or> e = slash then Some e
      else if e = CHR ''b'' then Some (CHR 0x08)
      else if e = CHR ''f'' then Some (CHR 0x0C)
      else if e = CHR ''n'' then Some (CHR 0x0A)
      else if e = CHR ''r'' then Some (CHR 0x0D)
      else if e = CHR ''t'' then Some (CHR 0x09)
      else None)"

definition low_surrogate :: "string \<Rightarrow> nat option" where
  "low_surrogate cs =
     (case cs of
        b # u # h1 # h2 # h3 # h4 # r \<Rightarrow>
          if b = backslash \<and> u = CHR ''u'' then
            (case hex4 h1 h2 h3 h4 of
               Some l \<Rightarrow> if 56320 \<le> l \<and> l < 57344 then Some l else None
             | None \<Rightarrow> None)
          else None
      | _ \<Rightarrow> None)"

fun parse_chars :: "string \<Rightarrow> (string \<times> string) option" where
  "parse_chars [] = None"
| "parse_chars (c # cs) =
     (if c = dquote then Some ([], cs)
      else if c = backslash then
        (case cs of
           [] \<Rightarrow> None
         | e # r \<Rightarrow>
             if e = CHR ''u'' then
               (case r of
                  h1 # h2 # h3 # h4 # r' \<Rightarrow>
                    (case hex4 h1 h2 h3 h4 of
                       None \<Rightarrow> None
                     | Some u \<Rightarrow>
                         (case (if 55296 \<le> u \<and> u < 56320 then low_surrogate r' else None) of
                            Some l \<Rightarrow>
                              map_option
                                (\<lambda>st. (utf8_encode (65536 + (u - 55296) * 1024 + (l - 56320)) @ fst st,
                                       snd st))
                                (parse_chars (drop 6 r'))
                          | None \<Rightarrow>
                              map_option (\<lambda>st. (utf8_encode u @ fst st, snd st)) (parse_chars r')))
                | _ \<Rightarrow> None)
             else
               (case unescape e of
                  None \<Rightarrow> None
                | Some d \<Rightarrow> map_option (\<lambda>st. (d # fst st, snd st)) (parse_chars r)))
      else if (of_char c :: nat) < 32 then None
      else map_option (\<lambda>st. (c # fst st, snd st)) (parse_chars cs))"

definition strip_prefix :: "string \<Rightarrow> string \<Rightarrow> string option" where
  "strip_prefix pre cs =
     (if take (length pre) cs = pre then Some (drop (length pre) cs) else None)"

definition parse_frac :: "string \<Rightarrow> (string \<times> string) option" where
  "parse_frac cs =
     (case cs of
        [] \<Rightarrow> Some ([], [])
      | c # r \<Rightarrow>
          if c = dot then
            (if takeWhile is_digit r = [] then None
             else Some (takeWhile is_digit r, dropWhile is_digit r))
          else Some ([], cs))"

definition parse_exp :: "string \<Rightarrow> (int \<times> string) option" where
  "parse_exp cs =
     (case cs of
        [] \<Rightarrow> Some (0, [])
      | c # r \<Rightarrow>
          if c = CHR ''e'' \<or> c = CHR ''E'' then
            (let neg = (case r of [] \<Rightarrow> False | s # _ \<Rightarrow> s = CHR ''-'');
                 r1 = (case r of [] \<Rightarrow> []
                       | s # r' \<Rightarrow> if s = CHR ''-'' \<or> s = CHR ''+'' then r' else r)
             in if takeWhile is_digit r1 = [] then None
                else Some ((if neg then - 1 else 1) * int (digits_val (takeWhile is_digit r1)),
                           dropWhile is_digit r1))
          else Some (0, cs))"

definition parse_number :: "string \<Rightarrow> (rat \<times> string) option" where
  "parse_number cs =
     (let neg = (case cs of [] \<Rightarrow> False | s # _ \<Rightarrow> s = CHR ''-'');
          cs1 = (if neg then tl cs else cs);
          ip = takeWhile is_digit cs1
      in if ip = [] \<or> (1 < length ip \<and> hd ip = CHR ''0'') then None
         else
           (case parse_frac (dropWhile is_digit cs1) of
              None \<Rightarrow> None
            | Some (fp, cs2) \<Rightarrow>
                (case parse_exp cs2 of
                   None \<Rightarrow> None
                 | Some (e, cs3) \<Rightarrow>
                     Some ((if neg then - 1 else 1) * of_nat (digits_val (ip @ fp))
                             / 10 ^ length fp * 10 powi e, cs3))))"

fun parse_value :: "nat \<Rightarrow> string \<Rightarrow> (jsval \<times> string) option"
  and parse_members ::
    "nat \<Rightarrow> (string \<times> jsval) list \<Rightarrow> string \<Rightarrow> (jsval \<times> string) option"
  and parse_elements :: "nat \<Rightarrow> jsval list \<Rightarrow> string \<Rightarrow> (jsval \<times> string) option"
where
  "parse_value 0 cs = None"
| "parse_value (Suc n) [] = None"
| "parse_value (Suc n) (c # r) =
     (if c = CHR ''{'' then
        (case skip_ws r of
           [] \<Rightarrow> None
         | d # r' \<Rightarrow>
             if d = CHR ''}'' then Some (JObj [], r') else parse_members n [] (d # r'))
      else if c = CHR ''['' then
        (case skip_ws r of
           [] \<Rightarrow> None
         | d # r' \<Rightarrow>
             if d = CHR '']'' then Some (JArr [], r') else parse_elements n [] (d # r'))
      else if c = dquote then map_option (\<lambda>st. (JStr (fst st), snd st)) (parse_chars r)
      else if c = CHR ''t'' then map_option (Pair (JBool True)) (strip_prefix ''rue'' r)
      else if c = CHR ''f'' then map_option (Pair (JBool False)) (strip_prefix ''alse'' r)
      else if c = CHR ''n'' then map_option (Pair JNull) (strip_prefix ''ull'' r)
      else map_option (\<lambda>qt. (JNum (fst qt), snd qt)) (parse_number (c # r)))"
| "parse_members 0 acc cs = None"
| "parse_members (Suc n) acc [] = None"
| "parse_members (Suc n) acc (c # r) =
     (if c \<noteq> dquote then None
      else
        (case parse_chars r of
           None \<Rightarrow> None
         | Some (k, r1) \<Rightarrow>
             (case skip_ws r1 of
                [] \<Rightarrow> None
              | c1 # r2 \<Rightarrow>
                  if c1 \<noteq> CHR '':'' then None
                  else
                    (case parse_value n (skip_ws r2) of
                       None \<Rightarrow> None
                     | Some (v, r3) \<Rightarrow>
                         (case skip_ws r3 of
                            [] \<Rightarrow> None
                          | c3 # r4 \<Rightarrow>
                              if c3 = CHR '','' then
                                parse_members n (AList.update k v acc) (skip_ws r4)
                              else if c3 = CHR ''}'' then
                                Some (JObj (AList.update k v acc), r4)
                              else None)))))"
| "parse_elements 0 acc cs = None"
| "parse_elements (Suc n) acc cs =
     (case parse_value n cs of
        None \<Rightarrow> None
      | Some (v, r1) \<Rightarrow>
          (case skip_ws r1 of
             [] \<Rightarrow> None
           | c1 # r2 \<Rightarrow>
               if c1 = CHR '','' then parse_elements n (acc @ [v]) (skip_ws r2)
               else if c1 = CHR '']'' then Some (JArr (acc @ [v]), r2)
               else None))"

definition JSON_parse :: "string \<Rightarrow> jsval option" where
  "JSON_parse text =
     (case parse_value (Suc (length text)) (skip_ws text) of
        None \<Rightarrow> None
      | Some (v, r) \<Rightarrow> if skip_ws r = [] then Some v else None)"

text \<open>
  The value \<open>JSON.parse\<close> returns is a registry when it is an object whose members
  all have the six fields of a \<open>FileInfo\<close>, in the order the upload handler creates
  them, with a non-negative integer for \<open>size\<close>.
\<close>

definition FileInfo_of :: "jsval \<Rightarrow> FileInfo option" where
  "FileInfo_of v =
     (case v of
        JObj [(k1, JStr a), (k2, JStr b), (k3, JStr c), (k4, JNum q), (k5, JStr d), (k6, JStr e)] \<Rightarrow>
          if [k1, k2, k3, k4, k5, k6] =
               [''uid'', ''originalFilename'', ''storedFilename'', ''size'', ''mimeType'',
                ''uploadTime'']
             \<and> 0 \<le> q \<and> of_int \<lfloor>q\<rfloor> = q
          then Some \<lparr>uid = a, originalFilename = b, storedFilename = c,
                      size_bytes = nat \<lfloor>q\<rfloor>, mimeType = d, uploadTime = e\<rparr>
          else None
      | _ \<Rightarrow> None)"

fun registry_members :: "(string \<times> jsval) list \<Rightarrow> registry option" where
  "registry_members [] = Some []"
| "registry_members ((k, v) # kvs) =
     (case FileInfo_of v of
        None \<Rightarrow> None
      | Some r \<Rightarrow> map_option (Cons (k, r)) (registry_members kvs))"

definition registry_of :: "jsval \<Rightarrow> registry option" where
  "registry_of v = (case v of JObj kvs \<Rightarrow> registry_members kvs | _ \<Rightarrow> None)"

subsection \<open>The store and the process state\<close>

text \<open>
  \<open>snapshot\<close> is the content of \<open>fileMap.json\<close> (\<open>None\<close>: no such file), \<open>blobs\<close> the
  files of \<open>uploads\<close> by name. A running process adds its \<open>fileMap\<close> and the lines it
  has written with \<open>console.error\<close>.
\<close>

record disk =
  snapshot :: "string option"
  blobs :: "string \<rightharpoonup> string"

record server = disk +
  fileMap :: registry
  console :: "string list"

text \<open>
  What a path denotes: nothing, a directory, or a regular file with its content. A
  regular file is an entry of \<open>uploads\<close>, the snapshot file, or a file the model does
  not track.
\<close>

datatype file_id = Upload string | Snapshot_file | Foreign

datatype node = Absent | Directory | Regular file_id string

text \<open>
  What \<open>fs.writeFileSync(fileMapPath, ...)\<close> does is the environment's choice: it
  writes the text, or throws and leaves the file as the environment says (untouched,
  truncated, partly written).
\<close>

datatype write_result = Written | Write_failed "string option"

text \<open>
  Lines 20-33: the load at module start. The process ends up serving with a registry
  (\<open>Serving\<close>); or serving with \<open>fileMap\<close> bound to a JSON value that is not a registry
  (\<open>Serving_untyped\<close>: the snapshot was valid JSON of another shape, and the handlers
  are not modelled for it); or it has exited on the exception of the repair write,
  which no \<open>try\<close> encloses (\<open>Exited\<close>, with the files it leaves).
\<close>

datatype startup = Serving server | Serving_untyped jsval | Exited disk

definition load :: "write_result \<Rightarrow> disk \<Rightarrow> startup" where
  "load w d =
     (case snapshot d of
        None \<Rightarrow> Serving \<lparr>snapshot = snapshot d, blobs = blobs d, fileMap = [], console = []\<rparr>
      | Some fileData \<Rightarrow>
          (case JSON_parse fileData of
             Some v \<Rightarrow>
               (case registry_of v of
                  Some m \<Rightarrow> Serving \<lparr>snapshot = snapshot d, blobs = blobs d, fileMap = m, console = []\<rparr>
                | None \<Rightarrow> Serving_untyped v)
           | None \<Rightarrow>
               (case w of
                  Written \<Rightarrow>
                    Serving \<lparr>snapshot = Some (JSON_stringify []), blobs = blobs d,
                             fileMap = [], console = [''Error loading fileMap:'']\<rparr>
                | Write_failed left \<Rightarrow> Exited (d\<lparr>snapshot := left\<rparr>))))"

text \<open>Lines 36-42.\<close>

definition saveFileMap :: "write_result \<Rightarrow> server \<Rightarrow> server" where
  "saveFileMap w s =
     (case w of
        Written \<Rightarrow> s\<lparr>snapshot := Some (JSON_stringify (fileMap s))\<rparr>
      | Write_failed left \<Rightarrow>
          s\<lparr>snapshot := left, console := console s @ [''Error saving fileMap:'']\<rparr>)"

subsection \<open>Requests, responses and the environment of a request\<close>

datatype body =
  Json_error string
  | Json_message string
  | Json_upload string "FileInfo list"
  | Json_files "FileInfo list"
  | File_stream string

record response =
  status :: nat
  headers :: "(string \<times> string) list"
  body :: body

definition json_error :: "nat \<Rightarrow> string \<Rightarrow> response" where
  "json_error code msg = \<lparr>status = code, headers = [], body = Json_error msg\<rparr>"

text \<open>
  \<open>res.setHeader\<close> throws (\<open>ERR_INVALID_CHAR\<close>) when the value has a character
  other than TAB, U+0020 to U+007E and U+0080 to U+00FF. On the UTF-8 bytes of a
  string: every byte is TAB, or lies in 0x20 to 0x7E, or in 0x80 to 0xC3 (the bytes of
  the code points up to U+00FF). \<open>None\<close> stands for the exception. \<open>headers\<close> lists
  the headers a handler has set itself, in the order of its calls; the ones set before
  an exception stay on the response.
\<close>

definition header_value_ok :: "string \<Rightarrow> bool" where
  "header_value_ok v =
     list_all (\<lambda>c. (of_char c :: nat) = 9
                  \<or> (32 \<le> (of_char c :: nat) \<and> (of_char c :: nat) \<noteq> 127
                      \<and> (of_char c :: nat) < 196)) v"

definition setHeader ::
  "string \<Rightarrow> string \<Rightarrow> (string \<times> string) list \<Rightarrow> (string \<times> string) list option" where
  "setHeader name v hs = (if header_value_ok v then Some (hs @ [(name, v)]) else None)"

text \<open>
  A file part of the field \<open>files\<close> as multer's parser reports it (file name, MIME
  type, bytes), and the file object multer hands to the route once the part is stored
  (the fields the handler reads). A part without a file name is no file for multer and
  is not among the parts here. A request that multer rejects, for a file part under
  another field name or a failing disk write, does not reach the handler and is
  outside the model.
\<close>

record part =
  part_filename :: string
  part_type :: string
  part_data :: string

record multer_file =
  originalname :: string
  mimetype :: string
  filename :: string
  file_size :: nat

datatype upload_request = Not_multipart | Multipart "part list"

text \<open>
  The results the environment gives during one request: \<open>uuidv4 i\<close> and
  \<open>toISOString i\<close> are what the \<open>i\<close>-th call of \<open>uuidv4()\<close> and of
  \<open>new Date().toISOString()\<close> return, \<open>writeFileSync\<close> is the outcome of the snapshot
  write, and \<open>elsewhere name\<close> is what the file system holds at
  \<open>path.join(uploadsDir, name)\<close> when that path leaves \<open>uploads\<close> and is not the
  snapshot file (it may still be a file the model tracks, reached by another route:
  the \<open>file_id\<close> says so).
\<close>

record env =
  uuidv4 :: "nat \<Rightarrow> string"
  toISOString :: "nat \<Rightarrow> string"
  writeFileSync :: write_result
  elsewhere :: "string \<Rightarrow> node"

text \<open>
  What \<open>path.join(uploadsDir, name)\<close> denotes. Below \<open>uploads\<close>: the directory itself,
  or one of its entries; a path through an entry, or one with a trailing slash, finds
  nothing, the entries being regular files. One level up is the directory of
  \<open>server.js\<close>, with its entries \<open>uploads\<close> and \<open>fileMap.json\<close>.
\<close>

definition entry_at :: "server \<Rightarrow> string list \<Rightarrow> bool \<Rightarrow> node" where
  "entry_at s down trailing =
     (case down of
        [] \<Rightarrow> Directory
      | k # below \<Rightarrow>
          (case blobs s k of
             Some bytes \<Rightarrow> if below = [] \<and> \<not> trailing then Regular (Upload k) bytes else Absent
           | None \<Rightarrow> Absent))"

definition file_at :: "env \<Rightarrow> server \<Rightarrow> string \<Rightarrow> node" where
  "file_at e s name =
     (let up = fst (join_uploadsDir name);
          down = snd (join_uploadsDir name);
          trailing = trailing_slash name
      in if up = 0 then entry_at s down trailing
         else if up = 1 \<and> down = [] then Directory
         else if up = 1 \<and> hd down = ''uploads'' then entry_at s (tl down) trailing
         else if up = 1 \<and> hd down = ''fileMap.json'' then
           (case snapshot s of
              Some content \<Rightarrow>
                if tl down = [] \<and> \<not> trailing then Regular Snapshot_file content else Absent
            | None \<Rightarrow> Absent)
         else elsewhere e name)"

text \<open>\<open>fs.unlinkSync\<close> on a regular file.\<close>

definition unlinkSync :: "file_id \<Rightarrow> server \<Rightarrow> server" where
  "unlinkSync f s =
     (case f of
        Upload k \<Rightarrow> s\<lparr>blobs := (blobs s)(k := None)\<rparr>
      | Snapshot_file \<Rightarrow> s\<lparr>snapshot := None\<rparr>
      | Foreign \<Rightarrow> s)"

subsection \<open>Upload\<close>

text \<open>
  Lines 45-58: the disk storage. multer calls \<open>filename\<close> for each file part in
  order, writes the part's bytes to that name in \<open>uploads\<close> and reports the bytes
  written as \<open>size\<close>. \<open>req.files\<close> is undefined when the request is not multipart, and
  the list of stored files otherwise.
\<close>

definition storage_filename :: "string \<Rightarrow> string \<Rightarrow> string" where
  "storage_filename uniqueId original = uniqueId @ path_extname original"

fun multer_store ::
  "(nat \<Rightarrow> string) \<Rightarrow> nat \<Rightarrow> part list \<Rightarrow> (string \<rightharpoonup> string)
     \<Rightarrow> multer_file list \<times> (string \<rightharpoonup> string)" where
  "multer_store gen i [] bl = ([], bl)"
| "multer_store gen i (p # ps) bl =
     (let storedFilename = storage_filename (gen i) (part_filename p);
          file = \<lparr>originalname = part_filename p, mimetype = part_type p,
                  filename = storedFilename, file_size = length (part_data p)\<rparr>;
          rest = multer_store gen (Suc i) ps (bl(storedFilename \<mapsto> part_data p))
      in (file # fst rest, snd rest))"

text \<open>Lines 79-93: the body of \<open>forEach\<close>, for the \<open>i\<close>-th file.\<close>

definition fileInfo_of_file :: "string \<Rightarrow> multer_file \<Rightarrow> FileInfo" where
  "fileInfo_of_file time file =
     \<lparr>uid = path_parse_name (filename file),
      originalFilename = originalname file,
      storedFilename = filename file,
      size_bytes = file_size file,
      mimeType = mimetype file,
      uploadTime = time\<rparr>"

fun forEach_file ::
  "(nat \<Rightarrow> string) \<Rightarrow> nat \<Rightarrow> multer_file list \<Rightarrow> registry \<times> FileInfo list
     \<Rightarrow> registry \<times> FileInfo list" where
  "forEach_file clock i [] acc = acc"
| "forEach_file clock i (file # files) acc =
     (let fileInfo = fileInfo_of_file (clock i) file
      in forEach_file clock (Suc i) files
           (obj_set (fst acc) (uid fileInfo) fileInfo, snd acc @ [fileInfo]))"

text \<open>
  Lines 69-106. With a registry of records nothing in the \<open>try\<close> block throws, so the
  \<open>catch\<close> branch (status 500) has no counterpart here.
\<close>

definition upload_handler :: "env \<Rightarrow> multer_file list option \<Rightarrow> server \<Rightarrow> response \<times> server" where
  "upload_handler e uploadedFiles s =
     (case uploadedFiles of
        None \<Rightarrow> (json_error 400 ''No files uploaded'', s)
      | Some files \<Rightarrow>
          if length files = 0 then (json_error 400 ''No files uploaded'', s)
          else
            (let done = forEach_file (toISOString e) 0 files (fileMap s, [])
             in (\<lparr>status = 200, headers = [],
                  body = Json_upload ''Files uploaded successfully'' (snd done)\<rparr>,
                 saveFileMap (writeFileSync e) (s\<lparr>fileMap := fst done\<rparr>))))"

definition upload_route :: "env \<Rightarrow> upload_request \<Rightarrow> server \<Rightarrow> response \<times> server" where
  "upload_route e req s =
     (case req of
        Not_multipart \<Rightarrow> upload_handler e None s
      | Multipart parts \<Rightarrow>
          (let stored = multer_store (uuidv4 e) 0 parts (blobs s)
           in upload_handler e (Some (fst stored)) (s\<lparr>blobs := snd stored\<rparr>)))"

subsection \<open>List, download, delete\<close>

text \<open>Lines 109-118.\<close>

definition list_handler :: "server \<Rightarrow> response \<times> server" where
  "list_handler s =
     (\<lparr>status = 200, headers = [(''Content-Type'', ''application/json'')],
       body = Json_files (Object_values (fileMap s))\<rparr>, s)"

text \<open>
  Lines 139-142: the three calls of \<open>res.setHeader\<close>. The first exception (of
  \<open>res.setHeader\<close> or of \<open>encodeURIComponent\<close>) ends the sequence: \<open>Inl\<close> with the
  headers set until then, \<open>Inr\<close> with all three otherwise.
\<close>

definition download_headers ::
  "FileInfo \<Rightarrow> (string \<times> string) list + (string \<times> string) list" where
  "download_headers fileInfo =
     (case setHeader ''Content-Type'' (mimeType fileInfo) [] of
        None \<Rightarrow> Inl []
      | Some h1 \<Rightarrow>
          (case encodeURIComponent (originalFilename fileInfo) of
             None \<Rightarrow> Inl h1
           | Some encoded \<Rightarrow>
               (case setHeader ''Content-Disposition''
                       (''attachment; filename='' @ [dquote] @ encoded @ [dquote]) h1 of
                  None \<Rightarrow> Inl h1
                | Some h2 \<Rightarrow>
                    (case setHeader ''Content-Length'' (show_nat (size_bytes fileInfo)) h2 of
                       None \<Rightarrow> Inl h2
                     | Some h3 \<Rightarrow> Inr h3))))"

text \<open>
  Lines 121-159. An inherited member passes the test \<open>!fileInfo\<close>; its
  \<open>storedFilename\<close> is undefined, \<open>path.join\<close> throws a \<open>TypeError\<close> on it, and the
  \<open>catch\<close> branch answers 500, as it does when setting the headers throws. The read
  stream of a regular file delivers its bytes (a failing read of one is not modelled);
  the read stream of a directory emits \<open>error\<close> before anything is sent, and the
  listener of lines 149-154 answers 500.
\<close>

definition download_handler :: "env \<Rightarrow> string \<Rightarrow> server \<Rightarrow> response \<times> server" where
  "download_handler e uid' s =
     (case obj_get (fileMap s) uid' of
        Undefined \<Rightarrow> (json_error 404 ''File not found'', s)
      | Inherited \<Rightarrow>
          (json_error 500 ''File download failed'',
           s\<lparr>console := console s @ [''Download error:'']\<rparr>)
      | Own fileInfo \<Rightarrow>
          (let filePath = file_at e s (storedFilename fileInfo)
           in if filePath = Absent then
                (json_error 404 ''File not found on server'',
                 saveFileMap (writeFileSync e) (s\<lparr>fileMap := obj_delete (fileMap s) uid'\<rparr>))
              else
                (case download_headers fileInfo of
                   Inl hs \<Rightarrow>
                     (\<lparr>status = 500, headers = hs, body = Json_error ''File download failed''\<rparr>,
                      s\<lparr>console := console s @ [''Download error:'']\<rparr>)
                 | Inr hs \<Rightarrow>
                     (case filePath of
                        Regular f bytes \<Rightarrow>
                          (\<lparr>status = 200, headers = hs, body = File_stream bytes\<rparr>, s)
                      | _ \<Rightarrow>
                          (\<lparr>status = 500, headers = hs, body = Json_error ''Error streaming file''\<rparr>,
                           s\<lparr>console := console s @ [''Stream error:'']\<rparr>)))))"

text \<open>
  Lines 162-187. \<open>fs.unlinkSync\<close> removes a regular file and throws on a directory,
  which the \<open>catch\<close> branch answers with 500.
\<close>

definition delete_handler :: "env \<Rightarrow> string \<Rightarrow> server \<Rightarrow> response \<times> server" where
  "delete_handler e uid' s =
     (case obj_get (fileMap s) uid' of
        Undefined \<Rightarrow> (json_error 404 ''File not found'', s)
      | Inherited \<Rightarrow>
          (json_error 500 ''File deletion failed'',
           s\<lparr>console := console s @ [''Delete error:'']\<rparr>)
      | Own fileInfo \<Rightarrow>
          (case file_at e s (storedFilename fileInfo) of
             Directory \<Rightarrow>
               (json_error 500 ''File deletion failed'',
                s\<lparr>console := console s @ [''Delete error:'']\<rparr>)
           | Absent \<Rightarrow>
               (\<lparr>status = 200, headers = [], body = Json_message ''File deleted successfully''\<rparr>,
                saveFileMap (writeFileSync e) (s\<lparr>fileMap := obj_delete (fileMap s) uid'\<rparr>))
           | Regular f bytes \<Rightarrow>
               (\<lparr>status = 200, headers = [], body = Json_message ''File deleted successfully''\<rparr>,
                saveFileMap (writeFileSync e)
                  ((unlinkSync f s)\<lparr>fileMap := obj_delete (fileMap s) uid'\<rparr>))))"

subsection \<open>The four routes\<close>

datatype request =
  POST_upload upload_request
  | GET_files
  | GET_download string
  | DELETE_files string

fun route :: "env \<Rightarrow> request \<Rightarrow> server \<Rightarrow> response \<times> server" where
  "route e (POST_upload req) s = upload_route e req s"
| "route e GET_files s = list_handler s"
| "route e (GET_download i) s = download_handler e i s"
| "route e (DELETE_files i) s = delete_handler e i s"

subsection \<open>A run of the documented example\<close>

text \<open>
  The example of the specification: \<open>report.pdf\<close> is uploaded to a fresh server. The
  constants below name the inputs and states that the closed theorems evaluate.
\<close>

definition example_uuid :: string where
  "example_uuid = ''123e4567-e89b-42d3-a456-426614174000''"

definition example_env :: env where
  "example_env =
     \<lparr>uuidv4 = (\<lambda>i. if i = 0 then example_uuid else ''00000000-0000-4000-8000-000000000001''),
      toISOString = (\<lambda>i. ''2024-01-01T00:00:00.000Z''),
      writeFileSync = Written,
      elsewhere = (\<lambda>name. Absent)\<rparr>"

definition failing_env :: env where
  "failing_env = example_env\<lparr>writeFileSync := Write_failed None\<rparr>"

definition example_part :: part where
  "example_part =
     \<lparr>part_filename = ''report.pdf'', part_type = ''application/pdf'', part_data = ''%PDF-1.7''\<rparr>"

definition example_record :: FileInfo where
  "example_record =
     \<lparr>uid = example_uuid, originalFilename = ''report.pdf'',
      storedFilename = example_uuid @ ''.pdf'', size_bytes = 8,
      mimeType = ''application/pdf'', uploadTime = ''2024-01-01T00:00:00.000Z''\<rparr>"

definition fresh_server :: server where
  "fresh_server = \<lparr>snapshot = None, blobs = Map.empty, fileMap = [], console = []\<rparr>"

definition odd_record :: FileInfo where
  "odd_record = example_record\<lparr>mimeType := ''text/plain'' @ [newline]\<rparr>"

definition odd_server :: server where
  "odd_server =
     \<lparr>snapshot = Some (JSON_stringify [(example_uuid, odd_record)]),
      blobs = [example_uuid @ ''.pdf'' \<mapsto> ''%PDF-1.7''],
      fileMap = [(example_uuid, odd_record)],
      console = []\<rparr>"

definition example_server :: server where
  "example_server =
     \<lparr>snapshot = Some (JSON_stringify [(example_uuid, example_record)]),
      blobs = [example_uuid @ ''.pdf'' \<mapsto> ''%PDF-1.7''],
      fileMap = [(example_uuid, example_record)],
      console = []\<rparr>"

subsection \<open>Notions used in the statements\<close>

text \<open>
  The textual form of what \<open>uuidv4()\<close> returns: 36 characters, lower-case hexadecimal
  digits in five groups separated by dashes.
\<close>

definition uuid_template :: string where
  "uuid_template = ''xxxxxxxx-xxxx-xxxx-xxxx-xxxxxxxxxxxx''"

definition is_uuid :: "string \<Rightarrow> bool" where
  "is_uuid u =
     list_all2 (\<lambda>t c. if t = CHR ''x'' then c \<in> set ''0123456789abcdef'' else c = CHR ''-'')
       uuid_template u"

text \<open>A name that is one entry of a directory.\<close>

definition plain_name :: "string \<Rightarrow> bool" where
  "plain_name name = (name \<noteq> [] \<and> name \<noteq> ''.'' \<and> name \<noteq> ''..'' \<and> slash \<notin> set name)"

text \<open>
  Coherence of key and record: the record stored under a key carries that key as its
  \<open>uid\<close>, and its \<open>storedFilename\<close> is the key followed by the extension of the
  original name.
\<close>

definition coherent :: "registry \<Rightarrow> bool" where
  "coherent m =
     list_all (\<lambda>kv. uid (snd kv) = fst kv
                   \<and> storedFilename (snd kv) = fst kv @ path_extname (originalFilename (snd kv))) m"

text \<open>The record an upload is expected to create for its \<open>i\<close>-th file part.\<close>

definition created_record :: "env \<Rightarrow> part list \<Rightarrow> nat \<Rightarrow> FileInfo" where
  "created_record e parts i =
     \<lparr>uid = uuidv4 e i,
      originalFilename = part_filename (parts ! i),
      storedFilename = uuidv4 e i @ path_extname (part_filename (parts ! i)),
      size_bytes = length (part_data (parts ! i)),
      mimeType = part_type (parts ! i),
      uploadTime = toISOString e i\<rparr>"

text \<open>The file object multer reports for the \<open>j\<close>-th part when the generator is at call \<open>i\<close>.\<close>

definition stored_file :: "(nat \<Rightarrow> string) \<Rightarrow> part list \<Rightarrow> nat \<Rightarrow> nat \<Rightarrow> multer_file" where
  "stored_file gen ps i j =
     \<lparr>originalname = part_filename (ps ! j), mimetype = part_type (ps ! j),
      filename = storage_filename (gen (i + j)) (part_filename (ps ! j)),
      file_size = length (part_data (ps ! j))\<rparr>"

text \<open>A file object whose name the configured \<open>filename\<close> callback produced.\<close>

definition named_by_storage :: "multer_file \<Rightarrow> bool" where
  "named_by_storage f = (\<exists>u. is_uuid u \<and> filename f = storage_filename u (originalname f))"

text \<open>The JSON value of a record, and of a registry whose members are listed in the given order.\<close>

definition jsval_of_FileInfo :: "FileInfo \<Rightarrow> jsval" where
  "jsval_of_FileInfo r =
     JObj [(''uid'', JStr (uid r)),
           (''originalFilename'', JStr (originalFilename r)),
           (''storedFilename'', JStr (storedFilename r)),
           (''size'', JNum (of_nat (size_bytes r))),
           (''mimeType'', JStr (mimeType r)),
           (''uploadTime'', JStr (uploadTime r))]"

definition jsval_of_registry :: "registry \<Rightarrow> jsval" where
  "jsval_of_registry m = JObj (map (\<lambda>kv. (fst kv, jsval_of_FileInfo (snd kv))) m)"

text \<open>What a process leaves to the next one: the files. Memory and console are lost.\<close>

definition disk_of :: "server \<Rightarrow> disk" where
  "disk_of s = \<lparr>snapshot = snapshot s, blobs = blobs s\<rparr>"

section \<open>Properties\<close>

subsection \<open>Evaluation of the example\<close>

lemmas path_defs =
  path_extname_def last_segment_def segment_ext_def path_parse_name_def follows_root_def

lemmas example_defs =
  example_env_def failing_env_def example_part_def example_record_def example_uuid_def
  fresh_server_def example_server_def

lemma Suc_8: "Suc (Suc (Suc (Suc (Suc (Suc (Suc (Suc 0))))))) = 8"
  by simp

lemma example_upload:
  "upload_route example_env (Multipart [example_part]) fresh_server =
     (\<lparr>status = 200, headers = [],
       body = Json_upload ''Files uploaded successfully'' [example_record]\<rparr>,
      example_server)"
  by (simp add: upload_route_def upload_handler_def example_defs storage_filename_def
      fileInfo_of_file_def path_defs obj_set_def saveFileMap_def Let_def Suc_8)

lemma example_failing_upload:
  "upload_route failing_env (Multipart [example_part]) fresh_server =
     (\<lparr>status = 200, headers = [],
       body = Json_upload ''Files uploaded successfully'' [example_record]\<rparr>,
      example_server\<lparr>snapshot := None, console := [''Error saving fileMap:'']\<rparr>)"
  by (simp add: upload_route_def upload_handler_def example_defs storage_filename_def
      fileInfo_of_file_def path_defs obj_set_def saveFileMap_def Let_def Suc_8)

lemma example_lookup: "obj_get (fileMap example_server) example_uuid = Own example_record"
  by (simp add: obj_get_def example_server_def)

lemma example_blob:
  "blobs example_server (storedFilename example_record) = Some ''%PDF-1.7''"
  by (simp add: example_server_def example_record_def)

subsection \<open>Decimal digits\<close>

lemma digit_val_nth: "k < 10 \<Longrightarrow> digit_val (''0123456789'' ! k) = k"
proof -
  assume "k < 10"
  then have "k \<in> {0, 1, 2, 3, 4, 5, 6, 7, 8, 9}" by auto
  then show ?thesis by (auto simp: digit_val_def)
qed

lemma digits_val_snoc: "digits_val (ds @ [c]) = 10 * digits_val ds + digit_val c"
  by (simp add: digits_val_def)

lemma digits_val_show_nat: "digits_val (show_nat n) = n"
proof (induction n rule: show_nat.induct)
  case (1 n)
  show ?case
  proof (cases "n < 10")
    case True
    then show ?thesis
      by (subst show_nat.simps) (simp add: digits_val_def digit_val_nth)
  next
    case False
    with 1 show ?thesis
      by (subst show_nat.simps) (simp add: digits_val_snoc digit_val_nth)
  qed
qed

lemma is_digit_nth: "k < 10 \<Longrightarrow> is_digit (''0123456789'' ! k)"
proof -
  assume "k < 10"
  then have "k = 0 \<or> k = 1 \<or> k = 2 \<or> k = 3 \<or> k = 4 \<or> k = 5 \<or> k = 6 \<or> k = 7 \<or> k = 8 \<or> k = 9"
    by arith
  then show ?thesis by (elim disjE) (simp_all add: is_digit_def)
qed

lemma nonzero_digit_nth: "0 < k \<Longrightarrow> k < 10 \<Longrightarrow> ''0123456789'' ! k \<noteq> CHR ''0''"
proof -
  assume "0 < k" "k < 10"
  then have "k = 1 \<or> k = 2 \<or> k = 3 \<or> k = 4 \<or> k = 5 \<or> k = 6 \<or> k = 7 \<or> k = 8 \<or> k = 9"
    by arith
  then show ?thesis by (elim disjE) simp_all
qed

lemma show_nat_digits: "list_all is_digit (show_nat n)"
proof (induction n rule: show_nat.induct)
  case (1 n)
  show ?case
  proof (cases "n < 10")
    case True
    then show ?thesis by (subst show_nat.simps) (simp add: is_digit_nth)
  next
    case False
    with 1 show ?thesis by (subst show_nat.simps) (simp add: is_digit_nth)
  qed
qed

lemma show_nat_nonempty: "show_nat n \<noteq> []"
  by (subst show_nat.simps) simp

lemma length_show_nat_small: "n < 10 \<Longrightarrow> length (show_nat n) = 1"
  by (subst show_nat.simps) simp

lemma hd_show_nat: "0 < n \<Longrightarrow> hd (show_nat n) \<noteq> CHR ''0''"
proof (induction n rule: show_nat.induct)
  case (1 n)
  show ?case
  proof (cases "n < 10")
    case True
    have eq: "show_nat n = [''0123456789'' ! n]"
      using True by (subst show_nat.simps) simp
    show ?thesis
      unfolding eq list.sel using 1(2) True by (rule nonzero_digit_nth)
  next
    case False
    then have "0 < n div 10" by simp
    with 1(1) False have "hd (show_nat (n div 10)) \<noteq> CHR ''0''" by simp
    with False show ?thesis
      by (subst show_nat.simps) (simp add: show_nat_nonempty)
  qed
qed

lemma show_nat_no_leading_zero: "1 < length (show_nat n) \<Longrightarrow> hd (show_nat n) \<noteq> CHR ''0''"
proof -
  assume a: "1 < length (show_nat n)"
  have "\<not> n < 10" using a length_show_nat_small [of n] by auto
  then show ?thesis by (intro hd_show_nat) simp
qed

lemma show_nat_Cons: "\<exists>d ds. show_nat n = d # ds \<and> is_digit d"
  using show_nat_digits [of n] show_nat_nonempty [of n] by (cases "show_nat n") auto

subsection \<open>Paths and UUIDs\<close>

lemma is_uuid_chars:
  assumes "is_uuid u" and "c \<in> set u"
  shows "c \<in> set ''0123456789abcdef-''"
proof -
  define P where
    "P = (\<lambda>t c. if t = CHR ''x'' then c \<in> set ''0123456789abcdef'' else c = CHR ''-'')"
  have all2: "list_all2 P uuid_template u"
    using assms(1) unfolding is_uuid_def P_def .
  from assms(2) obtain i where i: "i < length u" "u ! i = c"
    by (auto simp: in_set_conv_nth)
  have "P (uuid_template ! i) (u ! i)"
    using all2 i(1) by (rule list_all2_nthD2)
  then have "c \<in> set ''0123456789abcdef'' \<or> c = CHR ''-''"
    using i(2) unfolding P_def by (cases "uuid_template ! i = CHR ''x''") simp_all
  then show ?thesis by auto
qed

lemma is_uuid_length:
  assumes "is_uuid u"
  shows "length u = 36"
proof -
  from assms have "length uuid_template = length u"
    unfolding is_uuid_def by (rule list_all2_lengthD)
  moreover have "length uuid_template = 36"
    by (simp add: uuid_template_def)
  ultimately show ?thesis by simp
qed

lemma is_uuid_facts:
  assumes "is_uuid u"
  shows "u \<noteq> []" and "CHR ''.'' \<notin> set u" and "CHR ''/'' \<notin> set u" and "u \<noteq> ''__proto__''"
proof -
  show "u \<noteq> []" using is_uuid_length [OF assms] by auto
  show "CHR ''.'' \<notin> set u" using is_uuid_chars [OF assms, of "CHR ''.''"] by auto
  show "CHR ''/'' \<notin> set u" using is_uuid_chars [OF assms, of "CHR ''/''"] by auto
  show "u \<noteq> ''__proto__''" using is_uuid_length [OF assms] by auto
qed

lemma last_segment_no_slash: "CHR ''/'' \<notin> set (last_segment p)"
  using set_takeWhileD [of "CHR ''/''" "\<lambda>c. c \<noteq> CHR ''/''"]
  by (auto simp: last_segment_def)

lemma segment_ext_form:
  "segment_ext seg = [] \<or>
   (\<exists>a. segment_ext seg = CHR ''.'' # a \<and> CHR ''.'' \<notin> set a \<and> set a \<subseteq> set seg)"
proof -
  let ?a = "rev (takeWhile (\<lambda>c. c \<noteq> CHR ''.'') (rev seg))"
  have "CHR ''.'' \<notin> set ?a"
    using set_takeWhileD [of "CHR ''.''" "\<lambda>c. c \<noteq> CHR ''.''" "rev seg"] by auto
  moreover have "set ?a \<subseteq> set seg"
    using set_takeWhileD [of _ "\<lambda>c. c \<noteq> CHR ''.''" "rev seg"] by auto
  ultimately show ?thesis
    by (auto simp: segment_ext_def Let_def)
qed

lemma path_extname_form:
  "path_extname p = [] \<or>
   (\<exists>a. path_extname p = CHR ''.'' # a \<and> CHR ''.'' \<notin> set a \<and> CHR ''/'' \<notin> set a)"
  using segment_ext_form [of "last_segment p"] last_segment_no_slash [of p]
  by (auto simp: path_extname_def)

lemma last_segment_flat:
  assumes "CHR ''/'' \<notin> set p"
  shows "last_segment p = p"
proof -
  have d: "dropWhile (\<lambda>c. c = CHR ''/'') (rev p) = rev p"
  proof (cases "rev p")
    case Nil
    then show ?thesis by simp
  next
    case (Cons c cs)
    then have "c \<in> set p" by (metis list.set_intros(1) set_rev)
    with assms have "c \<noteq> CHR ''/''" by auto
    with Cons show ?thesis by simp
  qed
  have tk: "takeWhile (\<lambda>c. c \<noteq> CHR ''/'') (rev p) = rev p"
    using assms by (auto simp: takeWhile_eq_all_conv)
  show ?thesis unfolding last_segment_def d tk by simp
qed

lemma path_parse_name_plain:
  assumes "CHR ''/'' \<notin> set u" and "CHR ''.'' \<notin> set u"
  shows "path_parse_name u = u"
  using assms by (auto simp: path_parse_name_def last_segment_flat segment_ext_def Let_def)

lemma path_parse_name_with_ext:
  assumes "u \<noteq> []" and "CHR ''/'' \<notin> set u" and "CHR ''.'' \<notin> set u"
    and "CHR ''.'' \<notin> set a" and "CHR ''/'' \<notin> set a"
  shows "path_parse_name (u @ CHR ''.'' # a) = u"
proof -
  let ?p = "u @ CHR ''.'' # a"
  have seg: "last_segment ?p = ?p"
    using assms by (intro last_segment_flat) auto
  have "takeWhile (\<lambda>c. c \<noteq> CHR ''.'') (rev a @ CHR ''.'' # rev u) =
          rev a @ takeWhile (\<lambda>c. c \<noteq> CHR ''.'') (CHR ''.'' # rev u)"
    by (rule takeWhile_append2) (use assms(4) in auto)
  then have tw: "takeWhile (\<lambda>c. c \<noteq> CHR ''.'') (rev a @ CHR ''.'' # rev u) = rev a"
    by simp
  have ne: "?p \<noteq> ''..''"
    using assms(1,3) by (cases u) auto
  have "segment_ext ?p = CHR ''.'' # a"
    using assms(1) ne by (simp add: segment_ext_def tw Let_def)
  then show ?thesis
    using ne by (simp add: path_parse_name_def seg Let_def)
qed

lemma upload_uid_is_uuid:
  assumes "is_uuid u"
  shows "path_parse_name (storage_filename u original) = u"
    and "path_parse_name (storage_filename u original) \<noteq> ''__proto__''"
proof -
  note f = is_uuid_facts [OF assms]
  show "path_parse_name (storage_filename u original) = u"
    using path_extname_form [of original] f
    by (auto simp: storage_filename_def path_parse_name_plain path_parse_name_with_ext)
  then show "path_parse_name (storage_filename u original) \<noteq> ''__proto__''"
    using f(4) by simp
qed

subsection \<open>Upload: what the caller is told\<close>

lemma length_multer_store: "length (fst (multer_store gen i ps bl)) = length ps"
  by (induction ps arbitrary: i bl) (simp_all add: Let_def)

text \<open>
  Claim C6. An upload request that carries no file, whether its body is not multipart
  (\<open>req.files\<close> undefined) or is multipart without a file part (\<open>req.files\<close> empty), is
  answered with status 400 and the body \<open>{error: 'No files uploaded'}\<close>; the registry,
  the blob store, the snapshot and the console are what they were.
\<close>

theorem upload_without_files_is_bad_request:
  "upload_route e Not_multipart s =
     (\<lparr>status = 400, headers = [], body = Json_error ''No files uploaded''\<rparr>, s)
   \<and> upload_route e (Multipart []) s =
     (\<lparr>status = 400, headers = [], body = Json_error ''No files uploaded''\<rparr>, s)"
  by (simp add: upload_route_def upload_handler_def json_error_def)

text \<open>
  Claim C1, as the code has it. When the snapshot write of an upload with at least one
  file fails, \<open>saveFileMap\<close> catches the error and logs it: the response is the one of
  a successful write (status 200 with the created records), the registry in memory is
  the one of a successful write, the console gains the line \<open>Error saving fileMap:\<close>,
  and the snapshot file is what the failed write left.
\<close>

theorem upload_persist_failure_is_only_logged:
  assumes "parts \<noteq> []" and "writeFileSync e = Write_failed left"
  shows "fst (upload_route e (Multipart parts) s) =
           fst (upload_route (e\<lparr>writeFileSync := Written\<rparr>) (Multipart parts) s)
         \<and> status (fst (upload_route e (Multipart parts) s)) = 200
         \<and> fileMap (snd (upload_route e (Multipart parts) s)) =
             fileMap (snd (upload_route (e\<lparr>writeFileSync := Written\<rparr>) (Multipart parts) s))
         \<and> console (snd (upload_route e (Multipart parts) s)) =
             console s @ [''Error saving fileMap:'']
         \<and> snapshot (snd (upload_route e (Multipart parts) s)) = left"
proof -
  have "fst (multer_store (uuidv4 e) 0 parts (blobs s)) \<noteq> []"
    using assms(1) length_multer_store [of "uuidv4 e" 0 parts "blobs s"] by auto
  then show ?thesis
    using assms(2) by (simp add: upload_route_def upload_handler_def saveFileMap_def Let_def)
qed

theorem upload_persist_failure_is_only_logged_witness:
  "[example_part] \<noteq> [] \<and> writeFileSync failing_env = Write_failed None
   \<and> status (fst (upload_route failing_env (Multipart [example_part]) fresh_server)) = 200
   \<and> fileMap (snd (upload_route failing_env (Multipart [example_part]) fresh_server)) =
       [(example_uuid, example_record)]
   \<and> console (snd (upload_route failing_env (Multipart [example_part]) fresh_server)) =
       [''Error saving fileMap:'']
   \<and> snapshot (snd (upload_route failing_env (Multipart [example_part]) fresh_server)) = None"
proof -
  have h1: "[example_part] \<noteq> []" by simp
  have h2: "writeFileSync failing_env = Write_failed None"
    by (simp add: failing_env_def)
  note logged = upload_persist_failure_is_only_logged [OF h1 h2, of fresh_server]
  have a: "status (fst (upload_route failing_env (Multipart [example_part]) fresh_server)) = 200"
    using logged by blast
  have b: "console (snd (upload_route failing_env (Multipart [example_part]) fresh_server)) =
             console fresh_server @ [''Error saving fileMap:'']"
    using logged by blast
  have c: "snapshot (snd (upload_route failing_env (Multipart [example_part]) fresh_server)) = None"
    using logged by blast
  have d: "fileMap (snd (upload_route failing_env (Multipart [example_part]) fresh_server)) =
             [(example_uuid, example_record)]"
    by (simp add: example_failing_upload example_server_def)
  have "console fresh_server = []"
    by (simp add: fresh_server_def)
  with h1 h2 a b c d show ?thesis by simp
qed

text \<open>
  The claim as the specification states it fails: with a failing snapshot write the
  caller of the example upload is told of plain success.
\<close>

theorem upload_persist_failure_reported_counterexample:
  "writeFileSync failing_env = Write_failed None
   \<and> fst (upload_route failing_env (Multipart [example_part]) fresh_server) =
       \<lparr>status = 200, headers = [],
        body = Json_upload ''Files uploaded successfully'' [example_record]\<rparr>"
  by (simp add: example_failing_upload) (simp add: failing_env_def)

subsection \<open>multer's storage\<close>

lemma multer_store_files:
  "fst (multer_store gen i ps bl) = map (stored_file gen ps i) [0..<length ps]"
proof (induction ps arbitrary: i bl)
  case Nil
  then show ?case by simp
next
  case (Cons p ps)
  have "map (stored_file gen (p # ps) i) [0..<length (p # ps)] =
          stored_file gen (p # ps) i 0 # map (\<lambda>j. stored_file gen (p # ps) i (Suc j)) [0..<length ps]"
    by (simp add: map_upt_Suc del: upt_Suc)
  also have "(\<lambda>j. stored_file gen (p # ps) i (Suc j)) = stored_file gen ps (Suc i)"
    by (rule ext) (simp add: stored_file_def)
  finally show ?case
    using Cons.IH [of "Suc i"] by (simp add: Let_def stored_file_def)
qed

lemma multer_store_other:
  "n \<notin> filename ` set (fst (multer_store gen i ps bl)) \<Longrightarrow> snd (multer_store gen i ps bl) n = bl n"
  by (induction ps arbitrary: i bl) (auto simp: Let_def)

lemma multer_store_dom:
  "dom (snd (multer_store gen i ps bl)) = dom bl \<union> filename ` set (fst (multer_store gen i ps bl))"
  by (induction ps arbitrary: i bl) (auto simp: Let_def)

lemma multer_store_content:
  assumes "distinct (map filename (fst (multer_store gen i ps bl)))" and "j < length ps"
  shows "snd (multer_store gen i ps bl) (filename (fst (multer_store gen i ps bl) ! j)) =
           Some (part_data (ps ! j))"
  using assms
proof (induction ps arbitrary: i bl j)
  case Nil
  then show ?case by simp
next
  case (Cons p ps)
  let ?n = "storage_filename (gen i) (part_filename p)"
  let ?bl = "bl(?n \<mapsto> part_data p)"
  from Cons.prems(1) have fresh: "?n \<notin> filename ` set (fst (multer_store gen (Suc i) ps ?bl))"
    and dist: "distinct (map filename (fst (multer_store gen (Suc i) ps ?bl)))"
    by (simp_all add: Let_def)
  show ?case
  proof (cases j)
    case 0
    then show ?thesis
      using multer_store_other [OF fresh] by (simp add: Let_def)
  next
    case (Suc k)
    with Cons.prems(2) have "k < length ps" by simp
    note ih = Cons.IH [OF dist this]
    show ?thesis unfolding Suc by (simp add: Let_def ih)
  qed
qed

subsection \<open>The loop of the upload handler\<close>

lemma update_absent: "map_of m k = None \<Longrightarrow> AList.update k v m = m @ [(k, v)]"
  by (induction m) (auto split: if_splits)

lemma obj_set_fresh:
  "map_of m k = None \<Longrightarrow> k \<noteq> ''__proto__'' \<Longrightarrow> obj_set m k v = m @ [(k, v)]"
  by (simp add: obj_set_def update_absent)

lemma forEach_file_fresh:
  assumes "distinct (map (\<lambda>f. path_parse_name (filename f)) files)"
    and "\<forall>f\<in>set files. map_of m (path_parse_name (filename f)) = None
                          \<and> path_parse_name (filename f) \<noteq> ''__proto__''"
  shows "forEach_file clock i files (m, acc) =
           (m @ map (\<lambda>j. let r = fileInfo_of_file (clock (i + j)) (files ! j) in (uid r, r))
                    [0..<length files],
            acc @ map (\<lambda>j. fileInfo_of_file (clock (i + j)) (files ! j)) [0..<length files])"
  using assms
proof (induction files arbitrary: i m acc)
  case Nil
  then show ?case by simp
next
  case (Cons f fs)
  let ?r = "fileInfo_of_file (clock i) f"
  have u: "uid ?r = path_parse_name (filename f)"
    by (simp add: fileInfo_of_file_def)
  have set1: "obj_set m (uid ?r) ?r = m @ [(uid ?r, ?r)]"
    using Cons.prems(2) by (simp add: u obj_set_fresh)
  have d: "distinct (map (\<lambda>f. path_parse_name (filename f)) fs)"
    using Cons.prems(1) by simp
  have fr: "\<forall>g\<in>set fs. map_of (m @ [(uid ?r, ?r)]) (path_parse_name (filename g)) = None
                          \<and> path_parse_name (filename g) \<noteq> ''__proto__''"
  proof
    fix g assume g: "g \<in> set fs"
    with Cons.prems(1) have "path_parse_name (filename g) \<noteq> path_parse_name (filename f)"
      by (auto simp: image_iff)
    with g Cons.prems(2) show "map_of (m @ [(uid ?r, ?r)]) (path_parse_name (filename g)) = None
                          \<and> path_parse_name (filename g) \<noteq> ''__proto__''"
      by (simp add: u map_of_append)
  qed
  show ?case
    using Cons.IH [OF d fr, of "Suc i" "acc @ [?r]"]
    by (simp add: set1 map_upt_Suc Let_def del: upt_Suc)
qed

lemma stored_file_uid:
  assumes "is_uuid (gen (i + j))"
  shows "path_parse_name (filename (stored_file gen ps i j)) = gen (i + j)"
  using upload_uid_is_uuid(1) [OF assms] by (simp add: stored_file_def)

lemma created_record_of_stored_file:
  assumes "is_uuid (uuidv4 e j)"
  shows "fileInfo_of_file (toISOString e j) (stored_file (uuidv4 e) parts 0 j) = created_record e parts j"
  using upload_uid_is_uuid(1) [OF assms]
  by (simp add: fileInfo_of_file_def stored_file_def created_record_def storage_filename_def)

lemma upload_route_multipart:
  assumes "parts \<noteq> []"
  shows "upload_route e (Multipart parts) s =
    (\<lparr>status = 200, headers = [],
      body = Json_upload ''Files uploaded successfully''
        (snd (forEach_file (toISOString e) 0 (fst (multer_store (uuidv4 e) 0 parts (blobs s)))
               (fileMap s, [])))\<rparr>,
     saveFileMap (writeFileSync e)
       (s\<lparr>blobs := snd (multer_store (uuidv4 e) 0 parts (blobs s)),
          fileMap := fst (forEach_file (toISOString e) 0
                           (fst (multer_store (uuidv4 e) 0 parts (blobs s))) (fileMap s, []))\<rparr>))"
proof -
  have "fst (multer_store (uuidv4 e) 0 parts (blobs s)) \<noteq> []"
    using assms length_multer_store [of "uuidv4 e" 0 parts "blobs s"] by auto
  then show ?thesis
    by (simp add: upload_route_def upload_handler_def Let_def)
qed

lemma fileMap_saveFileMap [simp]: "fileMap (saveFileMap w s) = fileMap s"
  by (cases w) (simp_all add: saveFileMap_def)

lemma blobs_saveFileMap [simp]: "blobs (saveFileMap w s) = blobs s"
  by (cases w) (simp_all add: saveFileMap_def)

text \<open>
  Claim C5. An upload of \<open>N \<ge> 1\<close> file parts, for which \<open>uuidv4()\<close> returns \<open>N\<close>
  distinct UUIDs that are not yet keys of the registry and name no existing blob, is
  answered 200 with the \<open>N\<close> created records; the registry gains exactly these \<open>N\<close>
  entries, keyed by the \<open>N\<close> distinct ids, and the blob store gains exactly \<open>N\<close> new
  blobs, each holding the bytes of its part.
\<close>

theorem upload_creates_one_entry_per_file:
  assumes "parts \<noteq> []"
    and "\<forall>i<length parts. is_uuid (uuidv4 e i)"
    and "distinct (map (uuidv4 e) [0..<length parts])"
    and "\<forall>i<length parts. map_of (fileMap s) (uuidv4 e i) = None"
    and "\<forall>i<length parts. blobs s (storedFilename (created_record e parts i)) = None"
  shows "fst (upload_route e (Multipart parts) s) =
           \<lparr>status = 200, headers = [],
            body = Json_upload ''Files uploaded successfully''
                     (map (created_record e parts) [0..<length parts])\<rparr>
         \<and> fileMap (snd (upload_route e (Multipart parts) s)) =
             fileMap s @ map (\<lambda>i. (uuidv4 e i, created_record e parts i)) [0..<length parts]
         \<and> length (fileMap (snd (upload_route e (Multipart parts) s))) =
             length (fileMap s) + length parts
         \<and> distinct (map (\<lambda>i. uid (created_record e parts i)) [0..<length parts])
         \<and> dom (blobs (snd (upload_route e (Multipart parts) s))) =
             dom (blobs s) \<union> (\<lambda>i. storedFilename (created_record e parts i)) ` {0..<length parts}
         \<and> card (dom (blobs (snd (upload_route e (Multipart parts) s))) - dom (blobs s)) =
             length parts
         \<and> (\<forall>i<length parts.
               blobs (snd (upload_route e (Multipart parts) s))
                 (storedFilename (created_record e parts i)) = Some (part_data (parts ! i)))"
proof -
  let ?n = "length parts"
  let ?gen = "uuidv4 e"
  let ?st = "multer_store ?gen 0 parts (blobs s)"
  let ?fs = "fst ?st"
  let ?name = "\<lambda>i. storedFilename (created_record e parts i)"
  have fs: "?fs = map (stored_file ?gen parts 0) [0..<?n]"
    by (rule multer_store_files)
  have uids: "map (\<lambda>f. path_parse_name (filename f)) ?fs = map ?gen [0..<?n]"
    unfolding fs using assms(2) by (simp add: stored_file_uid)
  have names: "map filename ?fs = map ?name [0..<?n]"
    unfolding fs by (simp add: stored_file_def created_record_def storage_filename_def)
  have d1: "distinct (map (\<lambda>f. path_parse_name (filename f)) ?fs)"
    unfolding uids by (rule assms(3))
  have "distinct (map path_parse_name (map filename ?fs))"
    using d1 by (simp add: comp_def)
  then have d2: "distinct (map filename ?fs)"
    unfolding distinct_map [of path_parse_name] by blast
  have fresh: "\<forall>f\<in>set ?fs. map_of (fileMap s) (path_parse_name (filename f)) = None
                 \<and> path_parse_name (filename f) \<noteq> ''__proto__''"
    unfolding fs using assms(2,4) by (auto simp: stored_file_uid dest: is_uuid_facts(4))
  have recs: "map (\<lambda>j. fileInfo_of_file (toISOString e (0 + j)) (?fs ! j)) [0..<length ?fs] =
              map (created_record e parts) [0..<?n]"
    unfolding fs using assms(2) by (simp add: created_record_of_stored_file)
  have pairs: "map (\<lambda>j. let r = fileInfo_of_file (toISOString e (0 + j)) (?fs ! j) in (uid r, r))
                 [0..<length ?fs] =
               map (\<lambda>i. (?gen i, created_record e parts i)) [0..<?n]"
    unfolding fs using assms(2)
    by (simp add: created_record_of_stored_file Let_def) (simp add: created_record_def)
  have loop: "forEach_file (toISOString e) 0 ?fs (fileMap s, []) =
                (fileMap s @ map (\<lambda>i. (?gen i, created_record e parts i)) [0..<?n],
                 map (created_record e parts) [0..<?n])"
    using forEach_file_fresh [OF d1 fresh, of "toISOString e" 0 "[]"]
    unfolding recs pairs by simp
  have route: "upload_route e (Multipart parts) s =
      (\<lparr>status = 200, headers = [],
        body = Json_upload ''Files uploaded successfully'' (map (created_record e parts) [0..<?n])\<rparr>,
       saveFileMap (writeFileSync e)
         (s\<lparr>blobs := snd ?st,
            fileMap := fileMap s @ map (\<lambda>i. (?gen i, created_record e parts i)) [0..<?n]\<rparr>))"
    unfolding upload_route_multipart [OF assms(1)] loop by simp
  have img: "filename ` set ?fs = ?name ` {0..<?n}"
    using arg_cong [OF names, of set] by simp
  have dom: "dom (snd ?st) = dom (blobs s) \<union> ?name ` {0..<?n}"
    unfolding multer_store_dom img ..
  have disj: "?name ` {0..<?n} \<inter> dom (blobs s) = {}"
    using assms(5) by auto
  have "distinct (map ?name [0..<?n])"
    using d2 unfolding names .
  then have "card (set (map ?name [0..<?n])) = length (map ?name [0..<?n])"
    by (rule distinct_card)
  then have "card (?name ` {0..<?n}) = ?n"
    by simp
  moreover have "dom (snd ?st) - dom (blobs s) = ?name ` {0..<?n}"
    unfolding dom using disj by auto
  ultimately have card: "card (dom (snd ?st) - dom (blobs s)) = ?n"
    by simp
  have content: "\<forall>i<?n. snd ?st (?name i) = Some (part_data (parts ! i))"
  proof (intro allI impI)
    fix i assume i: "i < ?n"
    have "filename (?fs ! i) = ?name i"
      using arg_cong [OF names, of "\<lambda>xs. xs ! i"] i by (simp add: length_multer_store)
    with multer_store_content [OF d2 i] show "snd ?st (?name i) = Some (part_data (parts ! i))"
      by simp
  qed
  have d3: "distinct (map (\<lambda>i. uid (created_record e parts i)) [0..<?n])"
    using assms(3) by (simp add: created_record_def)
  show ?thesis
    unfolding route using dom card content d3 by simp
qed

lemma example_is_uuid: "is_uuid (uuidv4 example_env i)"
  by (simp add: example_env_def example_uuid_def is_uuid_def uuid_template_def)

theorem upload_creates_one_entry_per_file_witness:
  "[example_part] \<noteq> []
   \<and> is_uuid (uuidv4 example_env 0)
   \<and> map_of (fileMap fresh_server) (uuidv4 example_env 0) = None
   \<and> fileMap (snd (upload_route example_env (Multipart [example_part]) fresh_server)) =
       [(example_uuid, example_record)]
   \<and> length (fileMap (snd (upload_route example_env (Multipart [example_part]) fresh_server))) = 1
   \<and> card (dom (blobs (snd (upload_route example_env (Multipart [example_part]) fresh_server)))
            - dom (blobs fresh_server)) = 1
   \<and> blobs (snd (upload_route example_env (Multipart [example_part]) fresh_server))
       (example_uuid @ ''.pdf'') = Some ''%PDF-1.7''"
proof -
  have h1: "[example_part] \<noteq> []" by simp
  have h2: "\<forall>i<length [example_part]. is_uuid (uuidv4 example_env i)"
    by (simp add: example_is_uuid)
  have h3: "distinct (map (uuidv4 example_env) [0..<length [example_part]])"
    by simp
  have h4: "\<forall>i<length [example_part]. map_of (fileMap fresh_server) (uuidv4 example_env i) = None"
    by (simp add: fresh_server_def)
  have h5: "\<forall>i<length [example_part].
              blobs fresh_server (storedFilename (created_record example_env [example_part] i)) = None"
    by (simp add: fresh_server_def)
  note t = upload_creates_one_entry_per_file [OF h1 h2 h3 h4 h5]
  have a: "length (fileMap (snd (upload_route example_env (Multipart [example_part]) fresh_server))) =
             length (fileMap fresh_server) + length [example_part]"
    using t by blast
  have b: "card (dom (blobs (snd (upload_route example_env (Multipart [example_part]) fresh_server)))
            - dom (blobs fresh_server)) = length [example_part]"
    using t by blast
  have c: "fileMap fresh_server = []" by (simp add: fresh_server_def)
  have d: "snd (upload_route example_env (Multipart [example_part]) fresh_server) = example_server"
    by (simp add: example_upload)
  have e: "fileMap example_server = [(example_uuid, example_record)]"
    "blobs example_server (example_uuid @ ''.pdf'') = Some ''%PDF-1.7''"
    by (simp_all add: example_server_def)
  have f: "is_uuid (uuidv4 example_env 0)"
    "map_of (fileMap fresh_server) (uuidv4 example_env 0) = None"
    by (simp_all add: example_is_uuid fresh_server_def)
  show ?thesis
    using a b c e f unfolding d by simp
qed

subsection \<open>List\<close>

lemma mset_own_property_order: "mset (own_property_order obj) = mset obj"
  by (simp add: own_property_order_def)

text \<open>
  Claim C10. Listing answers 200 with \<open>Object.values(fileMap)\<close>, which holds every
  value of the registry exactly once (as a multiset it is the values of the own
  properties), and returns the server state it was given: registry, snapshot, blob
  store and console are unchanged.
\<close>

theorem list_is_read_only:
  "snd (list_handler s) = s
   \<and> status (fst (list_handler s)) = 200
   \<and> body (fst (list_handler s)) = Json_files (Object_values (fileMap s))
   \<and> mset (Object_values (fileMap s)) = mset (map snd (fileMap s))"
proof -
  have "mset (map snd (own_property_order (fileMap s))) = mset (map snd (fileMap s))"
    using mset_own_property_order [of "fileMap s"] by (metis mset_map)
  then show ?thesis by (simp add: list_handler_def Object_values_def)
qed

subsection \<open>Download\<close>

lemma header_value_ok_append [simp]:
  "header_value_ok (xs @ ys) \<longleftrightarrow> header_value_ok xs \<and> header_value_ok ys"
  by (simp add: header_value_ok_def)

lemma header_value_ok_digits: "header_value_ok (show_nat n)"
proof -
  have "list_all is_digit xs \<Longrightarrow> header_value_ok xs" for xs
    by (induction xs) (auto simp: header_value_ok_def is_digit_def)
  then show ?thesis
    using show_nat_digits [of n] by blast
qed

lemma header_value_ok_percent: "header_value_ok (percent_encode c)"
proof -
  have "k < 16 \<Longrightarrow> header_value_ok [''0123456789ABCDEF'' ! k]" for k
  proof -
    assume "k < 16"
    then have "k = 0 \<or> k = 1 \<or> k = 2 \<or> k = 3 \<or> k = 4 \<or> k = 5 \<or> k = 6 \<or> k = 7 \<or> k = 8
        \<or> k = 9 \<or> k = 10 \<or> k = 11 \<or> k = 12 \<or> k = 13 \<or> k = 14 \<or> k = 15"
      by arith
    then show ?thesis by (elim disjE) (simp_all add: header_value_ok_def)
  qed
  moreover have "(of_char c :: nat) div 16 < 16" "(of_char c :: nat) mod 16 < 16"
    by (simp_all add: less_mult_imp_div_less)
  ultimately show ?thesis
    by (simp add: percent_encode_def header_value_ok_def)
qed

lemma header_value_ok_unreserved: "c \<in> set uri_unreserved \<Longrightarrow> header_value_ok [c]"
  by (auto simp: uri_unreserved_def header_value_ok_def)

lemma header_value_ok_percent_encoded: "header_value_ok (percent_encoded s)"
  by (induction s)
    (simp_all add: percent_encoded_def header_value_ok_percent header_value_ok_unreserved,
     simp add: header_value_ok_def)

lemma download_headers_legal:
  assumes "header_value_ok (mimeType r)" and "\<not> unpaired_surrogate (originalFilename r)"
  shows "download_headers r =
           Inr [(''Content-Type'', mimeType r),
                (''Content-Disposition'',
                 ''attachment; filename='' @ [dquote] @ percent_encoded (originalFilename r)
                   @ [dquote]),
                (''Content-Length'', show_nat (size_bytes r))]"
proof -
  have "header_value_ok (''attachment; filename='' @ [dquote]
          @ percent_encoded (originalFilename r) @ [dquote])"
    using header_value_ok_percent_encoded [of "originalFilename r", unfolded header_value_ok_def]
    by (simp add: header_value_ok_def)
  then show ?thesis
    using assms
    by (simp add: download_headers_def setHeader_def encodeURIComponent_def header_value_ok_digits)
qed

lemma download_headers_illegal:
  "\<not> header_value_ok (mimeType r) \<Longrightarrow> download_headers r = Inl []"
  by (simp add: download_headers_def setHeader_def)

lemma download_headers_unpaired:
  assumes "header_value_ok (mimeType r)" and "unpaired_surrogate (originalFilename r)"
  shows "download_headers r = Inl [(''Content-Type'', mimeType r)]"
  using assms by (simp add: download_headers_def setHeader_def encodeURIComponent_def)

text \<open>A name of one segment is looked up among the entries of \<open>uploads\<close>.\<close>

lemma segments_plain: "slash \<notin> set name \<Longrightarrow> segments name = [name]"
  by (induction name) auto

lemma join_uploadsDir_plain: "plain_name name \<Longrightarrow> join_uploadsDir name = (0, [name])"
  by (simp add: plain_name_def join_uploadsDir_def segments_plain)

lemma trailing_slash_plain:
  assumes "plain_name name"
  shows "\<not> trailing_slash name"
proof
  note p = assms
  assume t: "trailing_slash name"
  from t have "name \<noteq> []" "last name = slash"
    by (simp_all add: trailing_slash_def)
  then have "slash \<in> set name"
    using last_in_set [of name] by simp
  with p show False by (simp add: plain_name_def)
qed

lemma file_at_plain:
  assumes "plain_name name"
  shows "file_at e s name =
           (case blobs s name of Some bytes \<Rightarrow> Regular (Upload name) bytes | None \<Rightarrow> Absent)"
  using trailing_slash_plain [OF assms]
  by (simp add: file_at_def join_uploadsDir_plain [OF assms] entry_at_def split: option.splits)

lemma plain_storage_filename:
  assumes "is_uuid u"
  shows "plain_name (storage_filename u original)"
proof -
  note f = is_uuid_facts [OF assms]
  have "length (storage_filename u original) \<ge> 36"
    using is_uuid_length [OF assms] by (simp add: storage_filename_def)
  then have "storage_filename u original \<noteq> ''.''" "storage_filename u original \<noteq> ''..''"
    by auto
  moreover have "slash \<notin> set (storage_filename u original)"
    using path_extname_form [of original] f(3) by (auto simp: storage_filename_def)
  ultimately show ?thesis
    using f(1) by (simp add: plain_name_def storage_filename_def)
qed

lemma example_plain: "plain_name (storedFilename example_record)"
  by (simp add: plain_name_def example_record_def example_uuid_def)

lemma example_file:
  "file_at e example_server (storedFilename example_record) =
     Regular (Upload (storedFilename example_record)) ''%PDF-1.7''"
  by (simp add: file_at_plain [OF example_plain] example_blob)

text \<open>
  Claim C7, with the two conditions the code needs. When the registry has a record
  under the requested id, the path of its \<open>storedFilename\<close> is a regular file, the
  stored MIME type is a legal header value and the original name has no unpaired
  surrogate: the response has status 200, the headers \<open>Content-Type\<close> (the stored MIME
  type), \<open>Content-Disposition\<close> (attachment, with the percent-encoded original name in
  quotes) and \<open>Content-Length\<close> (the decimal digits of the recorded size), and the
  file's bytes as its body; the state is unchanged.
\<close>

theorem download_sets_headers_and_streams:
  assumes "obj_get (fileMap s) i = Own r"
    and "file_at e s (storedFilename r) = Regular f bytes"
    and "header_value_ok (mimeType r)"
    and "\<not> unpaired_surrogate (originalFilename r)"
  shows "download_handler e i s =
           (\<lparr>status = 200,
             headers =
               [(''Content-Type'', mimeType r),
                (''Content-Disposition'',
                 ''attachment; filename='' @ [dquote] @ percent_encoded (originalFilename r)
                   @ [dquote]),
                (''Content-Length'', show_nat (size_bytes r))],
             body = File_stream bytes\<rparr>, s)
         \<and> encodeURIComponent (originalFilename r) = Some (percent_encoded (originalFilename r))
         \<and> digits_val (show_nat (size_bytes r)) = size_bytes r"
  using assms
  by (simp add: download_handler_def digits_val_show_nat download_headers_legal
      encodeURIComponent_def)

theorem download_sets_headers_and_streams_witness:
  "obj_get (fileMap example_server) example_uuid = Own example_record
   \<and> file_at example_env example_server (storedFilename example_record) =
       Regular (Upload (storedFilename example_record)) ''%PDF-1.7''
   \<and> header_value_ok (mimeType example_record)
   \<and> \<not> unpaired_surrogate (originalFilename example_record)
   \<and> download_handler example_env example_uuid example_server =
       (\<lparr>status = 200,
         headers =
           [(''Content-Type'', ''application/pdf''),
            (''Content-Disposition'', ''attachment; filename='' @ [dquote] @ ''report.pdf'' @ [dquote]),
            (''Content-Length'', ''8'')],
         body = File_stream ''%PDF-1.7''\<rparr>, example_server)"
proof -
  have ok: "header_value_ok (mimeType example_record)"
    by (simp add: example_record_def header_value_ok_def)
  have paired: "\<not> unpaired_surrogate (originalFilename example_record)"
    by (simp add: example_record_def)
  have "download_handler example_env example_uuid example_server =
          (\<lparr>status = 200,
            headers =
              [(''Content-Type'', mimeType example_record),
               (''Content-Disposition'',
                ''attachment; filename='' @ [dquote]
                  @ percent_encoded (originalFilename example_record) @ [dquote]),
               (''Content-Length'', show_nat (size_bytes example_record))],
            body = File_stream ''%PDF-1.7''\<rparr>, example_server)"
    using download_sets_headers_and_streams [OF example_lookup example_file ok paired]
    by blast
  then show ?thesis
    using ok paired
    by (simp add: example_lookup example_file)
      (simp add: example_record_def percent_encoded_def uri_unreserved_def show_nat.simps)
qed

text \<open>
  The claim as the specification states it fails for a record whose stored MIME type
  is not a legal header value, here \<open>text/plain\<close> followed by a line feed: record and
  file exist, \<open>res.setHeader\<close> throws on the first header, and the response is 500
  without any of the three headers. The state is the one loaded from a snapshot file
  with that record (\<open>odd_server_loaded\<close>).
\<close>

theorem download_illegal_mime_type_counterexample:
  "obj_get (fileMap odd_server) example_uuid = Own odd_record
   \<and> file_at example_env odd_server (storedFilename odd_record) =
       Regular (Upload (storedFilename odd_record)) ''%PDF-1.7''
   \<and> download_handler example_env example_uuid odd_server =
       (\<lparr>status = 500, headers = [], body = Json_error ''File download failed''\<rparr>,
        odd_server\<lparr>console := [''Download error:'']\<rparr>)"
proof -
  have plain: "plain_name (storedFilename odd_record)"
    by (simp add: plain_name_def odd_record_def example_record_def example_uuid_def)
  have found: "file_at example_env odd_server (storedFilename odd_record) =
       Regular (Upload (storedFilename odd_record)) ''%PDF-1.7''"
    by (simp add: file_at_plain [OF plain]) (simp add: odd_server_def odd_record_def example_record_def)
  have lookup: "obj_get (fileMap odd_server) example_uuid = Own odd_record"
    by (simp add: obj_get_def odd_server_def)
  have "\<not> header_value_ok (mimeType odd_record)"
    by (simp add: odd_record_def header_value_ok_def)
  then have "download_headers odd_record = Inl []"
    by (rule download_headers_illegal)
  then show ?thesis
    using lookup found by (simp add: download_handler_def) (simp add: odd_server_def)
qed

text \<open>The other outcomes of a download.\<close>

lemma download_illegal_mime_type:
  assumes "obj_get (fileMap s) i = Own r" and "file_at e s (storedFilename r) \<noteq> Absent"
    and "\<not> header_value_ok (mimeType r)"
  shows "download_handler e i s =
           (\<lparr>status = 500, headers = [], body = Json_error ''File download failed''\<rparr>,
            s\<lparr>console := console s @ [''Download error:'']\<rparr>)"
  using assms by (simp add: download_handler_def download_headers_illegal)

lemma download_unpaired_surrogate:
  assumes "obj_get (fileMap s) i = Own r" and "file_at e s (storedFilename r) \<noteq> Absent"
    and "header_value_ok (mimeType r)" and "unpaired_surrogate (originalFilename r)"
  shows "download_handler e i s =
           (\<lparr>status = 500, headers = [(''Content-Type'', mimeType r)],
             body = Json_error ''File download failed''\<rparr>,
            s\<lparr>console := console s @ [''Download error:'']\<rparr>)"
  using assms by (simp add: download_handler_def download_headers_unpaired)

text \<open>
  A name with an unpaired surrogate, as \<open>JSON.parse\<close> reads it from a snapshot file,
  and the download of a record with that name: \<open>encodeURIComponent\<close> throws after the
  first header is set.
\<close>

lemma parse_unpaired_surrogate:
  "JSON_parse ([dquote, backslash] @ ''ud800.txt'' @ [dquote]) =
     Some (JStr ([CHR 0xED, CHR 0xA0, CHR 0x80] @ ''.txt''))"
proof -
  have "char_of (237::nat) = CHR 0xED \<and> char_of (160::nat) = CHR 0xA0
        \<and> char_of (128::nat) = CHR 0x80"
    by code_simp
  then show ?thesis
    by (simp add: JSON_parse_def skip_ws_def is_ws_def hex4_def hex_val_def utf8_encode_def
        low_surrogate_def)
qed

lemma download_unpaired_surrogate_example:
  "download_handler example_env example_uuid
     (example_server\<lparr>fileMap :=
        [(example_uuid, example_record\<lparr>originalFilename := [CHR 0xED, CHR 0xA0, CHR 0x80] @ ''.txt''\<rparr>)]\<rparr>) =
     (\<lparr>status = 500, headers = [(''Content-Type'', ''application/pdf'')],
       body = Json_error ''File download failed''\<rparr>,
      example_server\<lparr>fileMap :=
        [(example_uuid, example_record\<lparr>originalFilename := [CHR 0xED, CHR 0xA0, CHR 0x80] @ ''.txt''\<rparr>)],
        console := [''Download error:'']\<rparr>)"
proof -
  let ?r = "example_record\<lparr>originalFilename := [CHR 0xED, CHR 0xA0, CHR 0x80] @ ''.txt''\<rparr>"
  let ?s = "example_server\<lparr>fileMap := [(example_uuid, ?r)]\<rparr>"
  have l: "obj_get (fileMap ?s) example_uuid = Own ?r"
    by (simp add: obj_get_def)
  have "plain_name (storedFilename ?r)"
    using example_plain by simp
  then have f: "file_at example_env ?s (storedFilename ?r) \<noteq> Absent"
    by (simp add: file_at_plain) (simp add: example_server_def example_record_def)
  have ok: "header_value_ok (mimeType ?r)"
    by (simp add: example_record_def header_value_ok_def)
  have u: "unpaired_surrogate (originalFilename ?r)"
    by simp
  show ?thesis
    using download_unpaired_surrogate [OF l f ok u]
    by (simp add: example_server_def example_record_def)
qed

lemma download_directory:
  assumes "obj_get (fileMap s) i = Own r" and "file_at e s (storedFilename r) = Directory"
    and "header_value_ok (mimeType r)" and "\<not> unpaired_surrogate (originalFilename r)"
  shows "status (fst (download_handler e i s)) = 500"
    and "body (fst (download_handler e i s)) = Json_error ''Error streaming file''"
    and "fileMap (snd (download_handler e i s)) = fileMap s"
  using assms by (simp_all add: download_handler_def download_headers_legal)

lemma file_at_uploads_dir:
  "file_at e s [] = Directory" "file_at e s ''.'' = Directory" "file_at e s ''..'' = Directory"
  by (simp_all add: file_at_def join_uploadsDir_def entry_at_def)

lemma download_unknown_id:
  "obj_get (fileMap s) i = Undefined \<Longrightarrow>
     download_handler e i s = (json_error 404 ''File not found'', s)"
  by (simp add: download_handler_def)

lemma download_missing_blob:
  assumes "obj_get (fileMap s) i = Own r" and "file_at e s (storedFilename r) = Absent"
  shows "download_handler e i s =
           (json_error 404 ''File not found on server'',
            saveFileMap (writeFileSync e) (s\<lparr>fileMap := obj_delete (fileMap s) i\<rparr>))"
  using assms by (simp add: download_handler_def)

lemma download_inherited_name:
  assumes "map_of (fileMap s) i = None" and "i \<in> set Object_prototype_names"
  shows "download_handler e i s =
           (json_error 500 ''File download failed'',
            s\<lparr>console := console s @ [''Download error:'']\<rparr>)"
  using assms by (simp add: download_handler_def obj_get_def)

text \<open>
  Claim C2, at an input where the code departs from it. No record is stored under
  \<open>constructor\<close>, yet \<open>fileMap['constructor']\<close> is the inherited \<open>Object\<close> function, so
  the request is not answered 404: the handler throws inside \<open>path.join\<close> and answers
  500. (An id that names no member of \<open>Object.prototype\<close> and has no record is
  answered 404, and so is a record whose file is absent, which is then removed:
  \<open>download_unknown_id\<close>, \<open>download_missing_blob\<close>, \<open>download_missing_blob_heals\<close>.)
\<close>

theorem download_constructor_is_500:
  "map_of (fileMap fresh_server) ''constructor'' = None
   \<and> download_handler example_env ''constructor'' fresh_server =
       (\<lparr>status = 500, headers = [], body = Json_error ''File download failed''\<rparr>,
        fresh_server\<lparr>console := [''Download error:'']\<rparr>)"
  by (simp add: download_handler_def obj_get_def Object_prototype_names_def fresh_server_def
      json_error_def)

subsection \<open>Delete\<close>

lemma map_of_obj_delete: "map_of (obj_delete m k) k = None"
  by (simp add: obj_delete_def delete_conv)

lemma delete_known_id:
  assumes "obj_get (fileMap s) i = Own r" and "file_at e s (storedFilename r) = Regular f bytes"
  shows "delete_handler e i s =
           (\<lparr>status = 200, headers = [], body = Json_message ''File deleted successfully''\<rparr>,
            saveFileMap (writeFileSync e)
              ((unlinkSync f s)\<lparr>fileMap := obj_delete (fileMap s) i\<rparr>))"
  using assms by (simp add: delete_handler_def)

lemma delete_known_id_without_blob:
  assumes "obj_get (fileMap s) i = Own r" and "file_at e s (storedFilename r) = Absent"
  shows "delete_handler e i s =
           (\<lparr>status = 200, headers = [], body = Json_message ''File deleted successfully''\<rparr>,
            saveFileMap (writeFileSync e) (s\<lparr>fileMap := obj_delete (fileMap s) i\<rparr>))"
  using assms by (simp add: delete_handler_def)

lemma delete_directory:
  assumes "obj_get (fileMap s) i = Own r" and "file_at e s (storedFilename r) = Directory"
  shows "delete_handler e i s =
           (json_error 500 ''File deletion failed'',
            s\<lparr>console := console s @ [''Delete error:'']\<rparr>)"
  using assms by (simp add: delete_handler_def)

lemma delete_plain_name:
  assumes "obj_get (fileMap s) i = Own r" and "plain_name (storedFilename r)"
  shows "delete_handler e i s =
           (\<lparr>status = 200, headers = [], body = Json_message ''File deleted successfully''\<rparr>,
            saveFileMap (writeFileSync e)
              (s\<lparr>blobs := (blobs s)(storedFilename r := None),
                 fileMap := obj_delete (fileMap s) i\<rparr>))"
proof (cases "blobs s (storedFilename r)")
  case None
  then have "file_at e s (storedFilename r) = Absent"
    by (simp add: file_at_plain [OF assms(2)])
  moreover have "(blobs s)(storedFilename r := None) = blobs s"
    using None by auto
  ultimately show ?thesis
    using delete_known_id_without_blob [OF assms(1)] by simp
next
  case (Some bytes)
  then have "file_at e s (storedFilename r) = Regular (Upload (storedFilename r)) bytes"
    by (simp add: file_at_plain [OF assms(2)])
  then show ?thesis
    using delete_known_id [OF assms(1)] by (simp add: unlinkSync_def)
qed

lemma delete_unknown_id:
  "obj_get (fileMap s) i = Undefined \<Longrightarrow>
     delete_handler e i s = (json_error 404 ''File not found'', s)"
  by (simp add: delete_handler_def)

lemma delete_twice:
  assumes "obj_get (fileMap s) i = Own r" and "i \<notin> set Object_prototype_names"
    and "file_at e s (storedFilename r) \<noteq> Directory"
  shows "status (fst (delete_handler e i s)) = 200"
    and "delete_handler e' i (snd (delete_handler e i s)) =
           (json_error 404 ''File not found'', snd (delete_handler e i s))"
proof -
  have m: "fileMap (snd (delete_handler e i s)) = obj_delete (fileMap s) i"
    and st: "status (fst (delete_handler e i s)) = 200"
    using assms(1,3)
    by (cases "file_at e s (storedFilename r)"; simp add: delete_handler_def saveFileMap_def
        split: write_result.splits)+
  show "status (fst (delete_handler e i s)) = 200" by (rule st)
  have "obj_get (fileMap (snd (delete_handler e i s))) i = Undefined"
    using assms(2) by (simp add: m obj_get_def map_of_obj_delete)
  then show "delete_handler e' i (snd (delete_handler e i s)) =
           (json_error 404 ''File not found'', snd (delete_handler e i s))"
    by (rule delete_unknown_id)
qed

lemma delete_inherited_name:
  assumes "map_of (fileMap s) i = None" and "i \<in> set Object_prototype_names"
  shows "delete_handler e i s =
           (json_error 500 ''File deletion failed'',
            s\<lparr>console := console s @ [''Delete error:'']\<rparr>)"
  using assms by (simp add: delete_handler_def obj_get_def)

text \<open>
  Claim C3, at an input where the code departs from it. No record is stored under
  \<open>toString\<close>, yet \<open>fileMap['toString']\<close> is the inherited function, so the delete
  request for this unknown id is not answered 404: \<open>path.join\<close> throws on the undefined
  \<open>storedFilename\<close> and the handler answers 500. The registry is unchanged. (A
  record whose stored name is an entry of \<open>uploads\<close>, present or not, is deleted with
  200; a second delete, and an unknown id that names no member of
  \<open>Object.prototype\<close>, are answered 404: \<open>delete_plain_name\<close>, \<open>delete_known_id\<close>,
  \<open>delete_twice\<close>, \<open>delete_unknown_id\<close>.)
\<close>

theorem delete_toString_is_500:
  "map_of (fileMap fresh_server) ''toString'' = None
   \<and> delete_handler example_env ''toString'' fresh_server =
       (\<lparr>status = 500, headers = [], body = Json_error ''File deletion failed''\<rparr>,
        fresh_server\<lparr>console := [''Delete error:'']\<rparr>)"
  by (simp add: delete_handler_def obj_get_def Object_prototype_names_def fresh_server_def
      json_error_def)

subsection \<open>Startup\<close>

lemma load_without_snapshot:
  "snapshot d = None \<Longrightarrow>
     load w d = Serving \<lparr>snapshot = None, blobs = blobs d, fileMap = [], console = []\<rparr>"
  by (simp add: load_def)

lemma JSON_stringify_empty: "JSON_stringify [] = ''{}''"
  by (simp add: JSON_stringify_def own_property_order_def json_object_def)

lemma load_malformed_repaired:
  assumes "snapshot d = Some fileData" and "JSON_parse fileData = None"
  shows "load Written d =
           Serving \<lparr>snapshot = Some ''{}'', blobs = blobs d, fileMap = [],
                    console = [''Error loading fileMap:'']\<rparr>"
  using assms by (simp add: load_def JSON_stringify_empty)

lemma load_malformed_write_fails:
  assumes "snapshot d = Some fileData" and "JSON_parse fileData = None"
  shows "load (Write_failed left) d = Exited (d\<lparr>snapshot := left\<rparr>)"
  using assms by (simp add: load_def)

text \<open>
  Claim C4, at an input where the code departs from it. The snapshot file holds the
  single character \<open>{\<close> and cannot be written (the failed write leaves it as it is).
  \<open>JSON.parse\<close> throws, the \<open>catch\<close> block logs and calls \<open>fs.writeFileSync\<close> outside any
  \<open>try\<close>, and that exception ends the process at module start. (Without a snapshot
  file, and with a malformed one that can be rewritten, the claim holds:
  \<open>load_without_snapshot\<close>, \<open>load_malformed_repaired\<close>.)
\<close>

theorem load_malformed_unwritable_exits:
  "JSON_parse ''{'' = None
   \<and> load (Write_failed (Some ''{'')) \<lparr>snapshot = Some ''{'', blobs = Map.empty\<rparr> =
       Exited \<lparr>snapshot = Some ''{'', blobs = Map.empty\<rparr>"
  by (simp add: load_def JSON_parse_def skip_ws_def is_ws_def)

subsection \<open>Coherence\<close>

lemma coherent_iff:
  "coherent m \<longleftrightarrow>
     (\<forall>(k, r)\<in>set m. uid r = k \<and> storedFilename r = k @ path_extname (originalFilename r))"
  by (auto simp: coherent_def list_all_iff)

lemma coherent_update:
  assumes "coherent m" and "uid v = k"
    and "storedFilename v = k @ path_extname (originalFilename v)"
  shows "coherent (AList.update k v m)"
  using assms by (induction m) (auto simp: coherent_def)

lemma coherent_obj_set:
  assumes "coherent m" and "uid v = k"
    and "storedFilename v = k @ path_extname (originalFilename v)"
  shows "coherent (obj_set m k v)"
  using assms by (simp add: obj_set_def coherent_update)

lemma coherent_obj_delete: "coherent m \<Longrightarrow> coherent (obj_delete m k)"
  by (induction m) (auto simp: coherent_def obj_delete_def)

lemma fileInfo_of_file_coherent:
  assumes "named_by_storage f"
  shows "storedFilename (fileInfo_of_file t f) =
           uid (fileInfo_of_file t f) @ path_extname (originalFilename (fileInfo_of_file t f))"
proof -
  from assms obtain u where u: "is_uuid u" "filename f = storage_filename u (originalname f)"
    by (auto simp: named_by_storage_def)
  have "path_parse_name (filename f) = u"
    unfolding u(2) by (rule upload_uid_is_uuid(1) [OF u(1)])
  then show ?thesis
    using u(2) by (simp add: fileInfo_of_file_def storage_filename_def)
qed

lemma forEach_file_coherent:
  assumes "coherent m"
    and "list_all (\<lambda>r. storedFilename r = uid r @ path_extname (originalFilename r)) acc"
    and "\<forall>f\<in>set files. named_by_storage f"
  shows "coherent (fst (forEach_file clock i files (m, acc)))
         \<and> list_all (\<lambda>r. storedFilename r = uid r @ path_extname (originalFilename r))
             (snd (forEach_file clock i files (m, acc)))"
  using assms
proof (induction files arbitrary: i m acc)
  case Nil
  then show ?case by simp
next
  case (Cons f fs)
  let ?r = "fileInfo_of_file (clock i) f"
  have r: "storedFilename ?r = uid ?r @ path_extname (originalFilename ?r)"
    using Cons.prems(3) by (simp add: fileInfo_of_file_coherent)
  have m': "coherent (obj_set m (uid ?r) ?r)"
    using Cons.prems(1) r by (intro coherent_obj_set) simp_all
  have acc': "list_all (\<lambda>r. storedFilename r = uid r @ path_extname (originalFilename r)) (acc @ [?r])"
    using Cons.prems(2) r by simp
  show ?case
    using Cons.IH [OF m' acc', of "Suc i"] Cons.prems(3) by (simp add: Let_def)
qed

lemma multer_store_named:
  assumes "\<forall>j. is_uuid (gen j)"
  shows "\<forall>f\<in>set (fst (multer_store gen i ps bl)). named_by_storage f"
  using assms
  by (induction ps arbitrary: i bl) (auto simp: Let_def named_by_storage_def)

lemma upload_handler_coherent:
  assumes "coherent (fileMap s)" and "\<forall>f\<in>set files. named_by_storage f"
  shows "coherent (fileMap (snd (upload_handler e (Some files) s)))
         \<and> (\<forall>msg recs. body (fst (upload_handler e (Some files) s)) = Json_upload msg recs \<longrightarrow>
               list_all (\<lambda>r. storedFilename r = uid r @ path_extname (originalFilename r)) recs)"
  using forEach_file_coherent [OF assms(1) _ assms(2), of "[]" "toISOString e" 0] assms(1)
  by (simp add: upload_handler_def Let_def json_error_def)

lemma route_keeps_coherent:
  assumes "coherent (fileMap s)" and "\<forall>i. is_uuid (uuidv4 e i)"
  shows "coherent (fileMap (snd (route e rq s)))
         \<and> (\<forall>msg recs. body (fst (route e rq s)) = Json_upload msg recs \<longrightarrow>
               list_all (\<lambda>r. storedFilename r = uid r @ path_extname (originalFilename r)) recs)"
proof (cases rq)
  case (POST_upload req)
  show ?thesis
  proof (cases req)
    case Not_multipart
    with POST_upload assms(1) show ?thesis
      by (simp add: upload_route_def upload_handler_def json_error_def)
  next
    case (Multipart parts)
    have coh: "coherent (fileMap (s\<lparr>blobs := snd (multer_store (uuidv4 e) 0 parts (blobs s))\<rparr>))"
      using assms(1) by simp
    have named: "\<forall>f\<in>set (fst (multer_store (uuidv4 e) 0 parts (blobs s))). named_by_storage f"
      using assms(2) by (rule multer_store_named)
    from upload_handler_coherent [OF coh named]
    show ?thesis
      unfolding POST_upload Multipart by (simp add: upload_route_def Let_def)
  qed
next
  case GET_files
  with assms(1) show ?thesis by (simp add: list_handler_def)
next
  case (GET_download i)
  with assms(1) show ?thesis
    by (auto simp: download_handler_def json_error_def coherent_obj_delete Let_def
        split: js_get.splits sum.splits node.splits)
next
  case (DELETE_files i)
  with assms(1) show ?thesis
    by (auto simp: delete_handler_def json_error_def coherent_obj_delete unlinkSync_def
        split: js_get.splits node.splits file_id.splits)
qed

lemma coherent_fresh: "coherent (fileMap fresh_server)"
  by (simp add: fresh_server_def coherent_def)

text \<open>
  Claim C9. Coherence of key and record (\<open>record.uid\<close> is the key,
  \<open>record.storedFilename\<close> is the key followed by the extension of the original
  name) is kept by each of the four routes, whenever \<open>uuidv4()\<close> returns UUIDs; and
  every record an upload reports has its \<open>storedFilename\<close> equal to its \<open>uid\<close> followed
  by the extension of its original name. The registry of a server started without a
  snapshot is coherent (\<open>coherent_fresh\<close>).
\<close>

theorem registry_coherence_is_invariant:
  assumes "coherent (fileMap s)" and "\<forall>i. is_uuid (uuidv4 e i)"
  shows "coherent (fileMap (snd (route e rq s)))
         \<and> (\<forall>(k, r)\<in>set (fileMap (snd (route e rq s))).
               uid r = k \<and> storedFilename r = k @ path_extname (originalFilename r))
         \<and> (\<forall>msg recs. body (fst (route e rq s)) = Json_upload msg recs \<longrightarrow>
               list_all (\<lambda>r. storedFilename r = uid r @ path_extname (originalFilename r)) recs)"
  using route_keeps_coherent [OF assms, of rq] by (simp add: coherent_iff)

theorem registry_coherence_is_invariant_witness:
  "coherent (fileMap fresh_server) \<and> (\<forall>i. is_uuid (uuidv4 example_env i))
   \<and> coherent (fileMap (snd (route example_env (POST_upload (Multipart [example_part])) fresh_server)))
   \<and> fileMap (snd (route example_env (POST_upload (Multipart [example_part])) fresh_server)) =
       [(example_uuid, example_record)]"
proof -
  have h2: "\<forall>i. is_uuid (uuidv4 example_env i)"
    by (simp add: example_is_uuid)
  have "coherent (fileMap (snd (route example_env (POST_upload (Multipart [example_part])) fresh_server)))"
    using registry_coherence_is_invariant [OF coherent_fresh h2, of "POST_upload (Multipart [example_part])"]
    by blast
  moreover have "fileMap (snd (route example_env (POST_upload (Multipart [example_part])) fresh_server)) =
       [(example_uuid, example_record)]"
    by (simp add: example_upload example_server_def)
  ultimately show ?thesis
    using coherent_fresh h2 by simp
qed

text \<open>The self-healing download, and the list that follows it.\<close>

lemma download_missing_blob_heals:
  assumes "obj_get (fileMap s) i = Own r" and "file_at e s (storedFilename r) = Absent"
  shows "status (fst (download_handler e i s)) = 404"
    and "fileMap (snd (download_handler e i s)) = obj_delete (fileMap s) i"
    and "map_of (fileMap (snd (download_handler e i s))) i = None"
    and "writeFileSync e = Written \<Longrightarrow>
           snapshot (snd (download_handler e i s)) = Some (JSON_stringify (obj_delete (fileMap s) i))"
    and "coherent (fileMap s) \<Longrightarrow>
           \<forall>r'\<in>set (Object_values (fileMap (snd (download_handler e i s)))). uid r' \<noteq> i"
proof -
  note d = download_missing_blob [OF assms]
  show "status (fst (download_handler e i s)) = 404"
    by (simp add: d json_error_def)
  show m: "fileMap (snd (download_handler e i s)) = obj_delete (fileMap s) i"
    by (simp add: d)
  show "map_of (fileMap (snd (download_handler e i s))) i = None"
    by (simp add: m map_of_obj_delete)
  show "writeFileSync e = Written \<Longrightarrow>
          snapshot (snd (download_handler e i s)) = Some (JSON_stringify (obj_delete (fileMap s) i))"
    by (simp add: d saveFileMap_def)
  show "\<forall>r'\<in>set (Object_values (fileMap (snd (download_handler e i s)))). uid r' \<noteq> i"
    if c: "coherent (fileMap s)"
  proof
    fix r' assume "r' \<in> set (Object_values (fileMap (snd (download_handler e i s))))"
    then have "r' \<in> snd ` set (obj_delete (fileMap s) i)"
      using mset_own_property_order [of "obj_delete (fileMap s) i"]
      by (metis m Object_values_def set_map mset_eq_setD)
    then obtain k where k: "(k, r') \<in> set (obj_delete (fileMap s) i)" by auto
    then have "k \<noteq> i" by (auto simp: obj_delete_def AList.delete_eq)
    moreover have "(k, r') \<in> set (fileMap s)"
      using k by (auto simp: obj_delete_def AList.delete_eq)
    then have "uid r' = k" using c by (auto simp: coherent_iff)
    ultimately show "uid r' \<noteq> i" by simp
  qed
qed

subsection \<open>The snapshot round trip\<close>

lemma hex_val_lower:
  "k < 16 \<Longrightarrow> hex_val (''0123456789abcdef'' ! k) = Some k"
proof -
  assume "k < 16"
  then have "k = 0 \<or> k = 1 \<or> k = 2 \<or> k = 3 \<or> k = 4 \<or> k = 5 \<or> k = 6 \<or> k = 7 \<or> k = 8
      \<or> k = 9 \<or> k = 10 \<or> k = 11 \<or> k = 12 \<or> k = 13 \<or> k = 14 \<or> k = 15"
    by arith
  then show ?thesis by (elim disjE) (simp_all add: hex_val_def)
qed

lemma hex4_control:
  assumes "(of_char c :: nat) < 32"
  shows "hex4 (CHR ''0'') (CHR ''0'') (''0123456789abcdef'' ! ((of_char c :: nat) div 16))
           (''0123456789abcdef'' ! ((of_char c :: nat) mod 16)) = Some (of_char c)"
proof -
  have "(of_char c :: nat) div 16 < 16" using assms by simp
  moreover have "(of_char c :: nat) mod 16 < 16" by simp
  moreover have "hex_val (CHR ''0'') = Some 0" by (simp add: hex_val_def)
  ultimately show ?thesis
    by (simp add: hex4_def hex_val_lower)
qed

lemma utf8_encode_ascii: "(of_char c :: nat) < 128 \<Longrightarrow> utf8_encode (of_char c) = [c]"
  by (simp add: utf8_encode_def)

lemma parse_chars_escape:
  "parse_chars (json_escape c @ rest) =
     map_option (\<lambda>st. (c # fst st, snd st)) (parse_chars rest)"
proof -
  consider (two) "c \<in> {CHR 0x08, CHR 0x09, CHR 0x0A, CHR 0x0C, CHR 0x0D, CHR 0x22, CHR 0x5C}"
    | (ctl) "c \<notin> {CHR 0x08, CHR 0x09, CHR 0x0A, CHR 0x0C, CHR 0x0D, CHR 0x22, CHR 0x5C}"
            "(of_char c :: nat) < 32"
    | (lit) "c \<notin> {CHR 0x08, CHR 0x09, CHR 0x0A, CHR 0x0C, CHR 0x0D, CHR 0x22, CHR 0x5C}"
            "\<not> (of_char c :: nat) < 32"
    by blast
  then show ?thesis
  proof cases
    case two
    then show ?thesis
      by (auto simp: json_escape_def unescape_def)
  next
    case ctl
    then show ?thesis
      by (simp add: json_escape_def hex4_control utf8_encode_ascii)
  next
    case lit
    then show ?thesis
      by (simp add: json_escape_def)
  qed
qed

lemma parse_chars_quoted:
  "parse_chars (concat (map json_escape s) @ CHR 0x22 # rest) = Some (s, rest)"
  by (induction s) (simp_all add: parse_chars_escape)

lemma comma_not_digit: "\<not> is_digit (CHR '','')"
  by (simp add: is_digit_def)

lemma takeWhile_show_nat: "takeWhile is_digit (show_nat n @ CHR '','' # r) = show_nat n"
proof -
  have "takeWhile is_digit (show_nat n @ CHR '','' # r) =
          show_nat n @ takeWhile is_digit (CHR '','' # r)"
    by (rule takeWhile_append2) (use show_nat_digits [of n] in \<open>auto simp: list_all_iff\<close>)
  then show ?thesis by (simp add: comma_not_digit)
qed

lemma dropWhile_show_nat: "dropWhile is_digit (show_nat n @ CHR '','' # r) = CHR '','' # r"
proof -
  have "dropWhile is_digit (show_nat n @ CHR '','' # r) = dropWhile is_digit (CHR '','' # r)"
    by (rule dropWhile_append2) (use show_nat_digits [of n] in \<open>auto simp: list_all_iff\<close>)
  then show ?thesis by (simp add: comma_not_digit)
qed

lemma parse_number_show_nat:
  "parse_number (show_nat n @ CHR '','' # r) = Some (of_nat n, CHR '','' # r)"
proof -
  obtain d ds where d: "show_nat n = d # ds" "is_digit d"
    using show_nat_Cons by blast
  have notminus: "d \<noteq> CHR ''-''"
    using d(2) by (auto simp: is_digit_def)
  have neg: "(case show_nat n @ CHR '','' # r of [] \<Rightarrow> False | s # _ \<Rightarrow> s = CHR ''-'') = False"
    using notminus by (simp add: d(1))
  have lead: "\<not> (1 < length (show_nat n) \<and> hd (show_nat n) = CHR ''0'')"
    using show_nat_no_leading_zero [of n] by blast
  show ?thesis
    unfolding parse_number_def neg Let_def
    using lead
    by (simp add: takeWhile_show_nat dropWhile_show_nat show_nat_nonempty parse_frac_def
        parse_exp_def digits_val_show_nat)
qed

lemma parse_value_show_nat:
  "parse_value (Suc f) (show_nat n @ CHR '','' # r) = Some (JNum (of_nat n), CHR '','' # r)"
proof -
  obtain d ds where d: "show_nat n = d # ds" "is_digit d"
    using show_nat_Cons by blast
  have "d \<noteq> CHR ''{''" "d \<noteq> CHR ''[''" "d \<noteq> CHR 0x22" "d \<noteq> CHR ''t''" "d \<noteq> CHR ''f''"
    "d \<noteq> CHR ''n''"
    using d(2) by (auto simp: is_digit_def)
  then have "parse_value (Suc f) (d # ds @ CHR '','' # r) =
               map_option (\<lambda>qt. (JNum (fst qt), snd qt)) (parse_number (d # ds @ CHR '','' # r))"
    by simp
  then show ?thesis
    using parse_number_show_nat [of n r] by (simp add: d(1))
qed

lemma skip_ws_show_nat: "skip_ws (show_nat n @ r) = show_nat n @ r"
proof -
  obtain d ds where d: "show_nat n = d # ds" "is_digit d"
    using show_nat_Cons by blast
  have "\<not> is_ws d" using d(2) by (auto simp: is_digit_def is_ws_def)
  then show ?thesis by (simp add: skip_ws_def d(1))
qed

lemma parse_FileInfo:
  "parse_value (Suc (Suc (Suc (Suc (Suc (Suc (Suc (Suc f))))))))
     (stringify_FileInfo r @ rest) = Some (jsval_of_FileInfo r, rest)"
  by (simp add: stringify_FileInfo_def json_object_def json_member_def JSON_quote_def
      json_escape_def skip_ws_def is_ws_def parse_chars_quoted parse_value_show_nat
      skip_ws_show_nat [unfolded skip_ws_def] jsval_of_FileInfo_def)

lemma FileInfo_of_jsval: "FileInfo_of (jsval_of_FileInfo r) = Some r"
  by (simp add: FileInfo_of_def jsval_of_FileInfo_def)

lemma json_lines_Cons:
  "json_lines (m # ms) = (if ms = [] then m else m @ CHR '','' # CHR 0x0A # json_lines ms)"
  by (cases ms) simp_all

lemma skip_ws_simps:
  "skip_ws (CHR 0x0A # xs) = skip_ws xs"
  "skip_ws (CHR '' '' # xs) = skip_ws xs"
  "skip_ws (CHR '','' # xs) = CHR '','' # xs"
  "skip_ws (CHR '':'' # xs) = CHR '':'' # xs"
  "skip_ws (CHR ''}'' # xs) = CHR ''}'' # xs"
  "skip_ws (CHR ''{'' # xs) = CHR ''{'' # xs"
  "skip_ws (CHR 0x22 # xs) = CHR 0x22 # xs"
  "skip_ws [] = []"
  by (simp_all add: skip_ws_def is_ws_def)

lemma skip_ws_FileInfo: "skip_ws (stringify_FileInfo r @ rest) = stringify_FileInfo r @ rest"
  by (simp add: stringify_FileInfo_def json_object_def skip_ws_simps)

lemma parse_member_entry:
  "parse_members (Suc (Suc (Suc (Suc (Suc (Suc (Suc (Suc (Suc f))))))))) acc
     (CHR 0x22 # concat (map json_escape k) @ CHR 0x22 # CHR '':'' # CHR '' ''
        # stringify_FileInfo r @ rest) =
   (case skip_ws rest of
      [] \<Rightarrow> None
    | c # r' \<Rightarrow>
        if c = CHR '','' then
          parse_members (Suc (Suc (Suc (Suc (Suc (Suc (Suc (Suc f))))))))
            (AList.update k (jsval_of_FileInfo r) acc) (skip_ws r')
        else if c = CHR ''}'' then Some (JObj (AList.update k (jsval_of_FileInfo r) acc), r')
        else None)"
  by (simp add: parse_chars_quoted skip_ws_simps skip_ws_FileInfo parse_FileInfo)

lemma parse_entries:
  assumes "es \<noteq> []" and "distinct (map fst es)" and "\<forall>kv\<in>set es. map_of acc (fst kv) = None"
  shows "parse_members (length es + (8 + f)) acc
           (skip_ws (json_lines (map (\<lambda>kv. json_member ''  '' (fst kv) (stringify_FileInfo (snd kv))) es)
                     @ CHR 0x0A # CHR ''}'' # rest)) =
         Some (JObj (acc @ map (\<lambda>kv. (fst kv, jsval_of_FileInfo (snd kv))) es), rest)"
  using assms
proof (induction es arbitrary: acc)
  case Nil
  then show ?case by simp
next
  case (Cons e es)
  let ?mem = "\<lambda>kv. json_member ''  '' (fst kv) (stringify_FileInfo (snd kv))"
  let ?acc' = "acc @ [(fst e, jsval_of_FileInfo (snd e))]"
  have fuel: "length (e # es) + (8 + f) = Suc (Suc (Suc (Suc (Suc (Suc (Suc (Suc (Suc (length es + f)))))))))"
    by simp
  have fuel': "Suc (Suc (Suc (Suc (Suc (Suc (Suc (Suc (length es + f)))))))) = length es + (8 + f)"
    by simp
  have upd: "AList.update (fst e) (jsval_of_FileInfo (snd e)) acc = ?acc'"
    using Cons.prems(3) by (simp add: update_absent)
  have start: "\<And>tail. skip_ws (?mem e @ tail) =
      CHR 0x22 # concat (map json_escape (fst e)) @ CHR 0x22 # CHR '':'' # CHR '' ''
        # stringify_FileInfo (snd e) @ tail"
    by (simp add: json_member_def JSON_quote_def skip_ws_simps)
  show ?case
  proof (cases "es = []")
    case True
    have shape: "json_lines (map ?mem (e # es)) @ CHR 0x0A # CHR ''}'' # rest =
                ?mem e @ CHR 0x0A # CHR ''}'' # rest"
      using True by simp
    show ?thesis
      unfolding fuel shape start parse_member_entry
      by (simp add: skip_ws_simps upd True)
  next
    case False
    have d: "distinct (map fst es)" using Cons.prems(2) by simp
    have fr: "\<forall>kv\<in>set es. map_of ?acc' (fst kv) = None"
      using Cons.prems(2,3) by (auto simp: map_of_append image_iff)
    note ih = Cons.IH [OF False d fr]
    have shape: "json_lines (map ?mem (e # es)) @ CHR 0x0A # CHR ''}'' # rest =
                ?mem e @ CHR '','' # CHR 0x0A # (json_lines (map ?mem es) @ CHR 0x0A # CHR ''}'' # rest)"
      using False by (simp add: json_lines_Cons)
    show ?thesis
      unfolding fuel shape start parse_member_entry
      by (simp add: skip_ws_simps upd fuel' ih)
  qed
qed

lemma registry_members_round_trip:
  "registry_members (map (\<lambda>kv. (fst kv, jsval_of_FileInfo (snd kv))) m) = Some m"
  by (induction m) (simp_all add: FileInfo_of_jsval)

lemma registry_of_round_trip: "registry_of (jsval_of_registry m) = Some m"
  by (simp add: registry_of_def jsval_of_registry_def registry_members_round_trip)

lemma length_json_lines:
  assumes "\<forall>m\<in>set ms. 9 \<le> length m"
  shows "9 * length ms \<le> length (json_lines ms)"
  using assms by (induction ms rule: json_lines.induct) auto

lemma length_entry: "9 \<le> length (json_member ''  '' k (stringify_FileInfo r))"
  by (simp add: json_member_def JSON_quote_def stringify_FileInfo_def json_object_def)

lemma skip_ws_entries:
  assumes "es \<noteq> []"
  shows "\<exists>tail. skip_ws (json_lines (map (\<lambda>kv. json_member ''  '' (fst kv) (stringify_FileInfo (snd kv))) es) @ X)
                 = CHR 0x22 # tail"
proof -
  from assms obtain e es' where es: "es = e # es'" by (cases es) auto
  show ?thesis
    unfolding es
    by (simp add: json_lines_Cons json_member_def JSON_quote_def skip_ws_simps)
qed

lemma JSON_parse_entries:
  assumes "es \<noteq> []" and "distinct (map fst es)"
  shows "JSON_parse
           (json_object []
              (map (\<lambda>kv. json_member ''  '' (fst kv) (stringify_FileInfo (snd kv))) es)) =
         Some (jsval_of_registry es)"
proof -
  let ?mem = "\<lambda>kv. json_member ''  '' (fst kv) (stringify_FileInfo (snd kv))"
  let ?body = "json_lines (map ?mem es) @ CHR 0x0A # CHR ''}'' # []"
  let ?text = "CHR ''{'' # CHR 0x0A # ?body"
  have obj: "json_object [] (map ?mem es) = ?text"
    using assms(1) by (simp add: json_object_def)
  have "9 * length (map ?mem es) \<le> length (json_lines (map ?mem es))"
    by (rule length_json_lines) (simp add: length_entry)
  then have "length es + 8 \<le> length ?text"
    using assms(1) by (cases es) simp_all
  then have "length ?text = length es + (8 + (length ?text - (length es + 8)))"
    by simp
  then obtain f where f: "length ?text = length es + (8 + f)" ..
  obtain tail where tail: "skip_ws ?body = CHR 0x22 # tail"
    using skip_ws_entries [OF assms(1)] by blast
  have "parse_value (Suc (length ?text)) ?text = parse_members (length ?text) [] (skip_ws ?body)"
    by (simp add: skip_ws_simps tail)
  also have "\<dots> = Some (JObj ([] @ map (\<lambda>kv. (fst kv, jsval_of_FileInfo (snd kv))) es), [])"
    unfolding f by (rule parse_entries [OF assms]) simp
  finally have "parse_value (Suc (length ?text)) (skip_ws ?text) = Some (jsval_of_registry es, [])"
    by (simp add: skip_ws_simps jsval_of_registry_def)
  then show ?thesis
    unfolding obj JSON_parse_def by (simp add: skip_ws_simps)
qed

lemma distinct_own_property_order:
  assumes "distinct (map fst m)"
  shows "distinct (map fst (own_property_order m))"
proof -
  have "mset (map fst (own_property_order m)) = mset (map fst m)"
    using mset_own_property_order [of m] by (metis mset_map)
  then show ?thesis
    using assms by (metis mset_eq_imp_distinct_iff)
qed

lemma JSON_round_trip:
  assumes "distinct (map fst m)"
  shows "JSON_parse (JSON_stringify m) = Some (jsval_of_registry (own_property_order m))"
proof (cases "own_property_order m = []")
  case True
  then show ?thesis
    by (simp add: JSON_stringify_def json_object_def JSON_parse_def skip_ws_simps
        jsval_of_registry_def)
next
  case False
  then show ?thesis
    unfolding JSON_stringify_def
    by (rule JSON_parse_entries) (rule distinct_own_property_order [OF assms])
qed

text \<open>
  Claim C8. For every registry (a JavaScript object: its keys are distinct), a process
  that starts on the files left after a successful \<open>saveFileMap\<close> serves with exactly
  the records that were saved: its registry is the saved one in enumeration order, a
  permutation of the saved entries, whatever the outcome a startup write would have.
\<close>

theorem snapshot_round_trip:
  assumes "distinct (map fst (fileMap s))"
  shows "load w (disk_of (saveFileMap Written s)) =
           Serving \<lparr>snapshot = Some (JSON_stringify (fileMap s)), blobs = blobs s,
                    fileMap = own_property_order (fileMap s), console = []\<rparr>
         \<and> mset (own_property_order (fileMap s)) = mset (fileMap s)"
  using JSON_round_trip [OF assms]
  by (simp add: load_def disk_of_def saveFileMap_def registry_of_round_trip mset_own_property_order)

lemma example_not_index: "\<not> is_array_index example_uuid"
  by (simp add: is_array_index_def example_uuid_def is_digit_def)

theorem snapshot_round_trip_witness:
  "distinct (map fst (fileMap example_server))
   \<and> load Written (disk_of (saveFileMap Written example_server)) = Serving example_server"
proof -
  have d: "distinct (map fst (fileMap example_server))"
    by (simp add: example_server_def)
  have o: "own_property_order (fileMap example_server) = fileMap example_server"
    by (simp add: own_property_order_def example_server_def example_not_index)
  have "load Written (disk_of (saveFileMap Written example_server)) =
          Serving \<lparr>snapshot = Some (JSON_stringify (fileMap example_server)),
                   blobs = blobs example_server,
                   fileMap = own_property_order (fileMap example_server), console = []\<rparr>"
    using snapshot_round_trip [OF d, of Written] by blast
  also have "\<dots> = Serving example_server"
    unfolding o by (simp add: example_server_def)
  finally show ?thesis using d by simp
qed

text \<open>
  The server with the record of an illegal MIME type is the one a process becomes
  when it starts on a snapshot file holding that record.
\<close>

lemma odd_server_loaded:
  "load w \<lparr>snapshot = snapshot odd_server, blobs = blobs odd_server\<rparr> = Serving odd_server"
proof -
  have d: "distinct (map fst [(example_uuid, odd_record)])"
    by simp
  have o: "own_property_order [(example_uuid, odd_record)] = [(example_uuid, odd_record)]"
    by (simp add: own_property_order_def example_not_index)
  show ?thesis
    using JSON_round_trip [OF d] unfolding o
    by (simp add: load_def odd_server_def registry_of_round_trip)
qed

text \<open>Coherence survives a restart on the snapshot a process saved.\<close>

lemma coherent_own_property_order: "coherent m \<Longrightarrow> coherent (own_property_order m)"
proof -
  assume c: "coherent m"
  have "set (own_property_order m) = set m"
    using mset_own_property_order [of m] by (rule mset_eq_setD)
  with c show ?thesis
    by (simp add: coherent_def list_all_iff)
qed

end
